theory Spec2Isabelle
  imports Main "HOL-Library.Word"
begin

section \<open>SimpleDispatcher of go-workers: data model\<close>

text \<open>
  The dispatcher (\<^verbatim>\<open>SimpleDispatcher\<close>, package dispatcher) pairs manager items of
  workers with manager items of tasks, runs each pair in a goroutine of its own
  (\<^verbatim>\<open>doRunTask\<close>) and folds the result envelopes back in \<^verbatim>\<open>doResultCollector\<close>.
  Manager items are heap objects shared between the managers, the envelopes and the
  goroutines, so the model keeps them in two stores indexed by address. Every
  goroutine body is cut into the pieces that run from one blocking point to the next;
  the interleaving is a list of actions.
\<close>

type_synonym addr = nat
type_synonym instant = int             \<comment> \<open>\<^verbatim>\<open>time.Time\<close>, in nanoseconds\<close>
type_synonym duration = "64 word"      \<comment> \<open>\<^verbatim>\<open>time.Duration\<close>, an int64\<close>
type_synonym int64 = "64 word"

definition Add :: "instant \<Rightarrow> duration \<Rightarrow> instant" where
  "Add t d = t + sint d"

subsection \<open>Errors and contexts\<close>

text \<open>
  \<^verbatim>\<open>context.Canceled\<close> and \<^verbatim>\<open>context.DeadlineExceeded\<close> are the two sentinel errors a
  context's \<^verbatim>\<open>Err()\<close> can hold; every other error is known by its message.
\<close>

datatype error = Canceled | DeadlineExceeded | errors_New string

fun Error :: "error \<Rightarrow> string" where
  "Error Canceled = ''context canceled''"
| "Error DeadlineExceeded = ''context deadline exceeded''"
| "Error (errors_New s) = s"

text \<open>
  A context is its \<^verbatim>\<open>Err()\<close>: \<open>None\<close> while it is not done. The first cause sticks:
  cancelling a context that is already done changes nothing.
\<close>

type_synonym Context = "error option"

definition ctx_finish :: "error \<Rightarrow> Context \<Rightarrow> Context" where
  "ctx_finish e c = (case c of None \<Rightarrow> Some e | Some e' \<Rightarrow> Some e')"

subsection \<open>Statuses\<close>

text \<open>
  The declarations of the dispatcher and worker statuses are not among the sources; the
  dispatcher compares them with each other only. \<open>DispatcherStatusUndefined\<close> stands
  for the zero value of the status field, read before the first \<^verbatim>\<open>SetStatus\<close>.
\<close>

datatype DispatcherStatus =
  DispatcherStatusUndefined | DispatcherStatusWait | DispatcherStatusProcess | DispatcherStatusCancel

datatype WorkerStatus = WorkerStatusWait | WorkerStatusProcess | WorkerStatusCancel

text \<open>
  A task status is the int64 the status base of the item stores. The generated table
  \<^verbatim>\<open>_TaskStatusName\<close> with \<^verbatim>\<open>_TaskStatusIndex\<close> names the values 0 to 6.
\<close>

definition TaskStatusName :: string where
  "TaskStatusName = ''UndefinedWaitProcessSuccessFailRepeatWaitCancel''"

definition TaskStatusIndex :: "nat list" where
  "TaskStatusIndex = [0, 9, 13, 20, 27, 31, 41, 47]"

function decimal :: "nat \<Rightarrow> string" where
  "decimal n = (if n < 10 then [char_of (48 + n)] else decimal (n div 10) @ [char_of (48 + n mod 10)])"
  by pat_completeness auto
termination
  by (relation "measure id") auto

definition Sprintf_d :: "int \<Rightarrow> string" where
  "Sprintf_d i = (if i < 0 then ''-'' @ decimal (nat (- i)) else decimal (nat i))"

definition TaskStatus_String :: "int \<Rightarrow> string" where
  "TaskStatus_String i =
     (if i < 0 \<or> i \<ge> int (length TaskStatusIndex) - 1 then ''TaskStatus('' @ Sprintf_d i @ '')''
      else take (TaskStatusIndex ! (nat i + 1) - TaskStatusIndex ! nat i)
             (drop (TaskStatusIndex ! nat i) TaskStatusName))"

definition TaskStatusValues :: "int list" where
  "TaskStatusValues = [0, 1, 2, 3, 4, 5, 6]"

definition TaskStatusUndefined :: int where "TaskStatusUndefined = 0"
definition TaskStatusWait :: int where "TaskStatusWait = 1"
definition TaskStatusProcess :: int where "TaskStatusProcess = 2"
definition TaskStatusSuccess :: int where "TaskStatusSuccess = 3"
definition TaskStatusFail :: int where "TaskStatusFail = 4"
definition TaskStatusRepeatWait :: int where "TaskStatusRepeatWait = 5"
definition TaskStatusCancel :: int where "TaskStatusCancel = 6"

lemmas TaskStatus_defs = TaskStatusUndefined_def TaskStatusWait_def TaskStatusProcess_def
  TaskStatusSuccess_def TaskStatusFail_def TaskStatusRepeatWait_def TaskStatusCancel_def

subsection \<open>Tasks, workers and their manager items\<close>

text \<open>
  Of a task the dispatcher reads \<^verbatim>\<open>Id()\<close>, \<^verbatim>\<open>Repeats()\<close>, \<^verbatim>\<open>RepeatInterval()\<close> and
  \<^verbatim>\<open>Timeout()\<close>; of a worker \<^verbatim>\<open>Id()\<close> and \<^verbatim>\<open>RunTask\<close>, whose outcome is an input of
  the model.
\<close>

record Task =
  Id :: string
  Repeats :: int64
  RepeatInterval :: duration
  Timeout :: duration

record Worker =
  WorkerId :: string

text \<open>
  The fields of \<^verbatim>\<open>TasksManagerItem\<close> and \<^verbatim>\<open>WorkersManagerItem\<close> that the dispatcher
  reads and writes through their accessors. The cancel handle of an item is the
  number of the execution whose context it cancels.
\<close>

record TasksManagerItem =
  t_task :: Task
  t_status :: int
  t_attempts :: int64
  t_allowStartAt :: "instant option"
  t_firstStartedAt :: "instant option"
  t_lastStartedAt :: "instant option"
  t_cancel :: "nat option"

record WorkersManagerItem =
  w_worker :: Worker
  w_status :: WorkerStatus
  w_createdAt :: instant
  w_task :: "Task option"
  w_cancel :: "nat option"

definition NewTasksManagerItem :: "Task \<Rightarrow> int \<Rightarrow> TasksManagerItem" where
  "NewTasksManagerItem task st =
     \<lparr>t_task = task, t_status = st, t_attempts = 0, t_allowStartAt = None,
      t_firstStartedAt = None, t_lastStartedAt = None, t_cancel = None\<rparr>"

definition NewWorkersManagerItem :: "Worker \<Rightarrow> WorkerStatus \<Rightarrow> instant \<Rightarrow> WorkersManagerItem" where
  "NewWorkersManagerItem worker st now =
     \<lparr>w_worker = worker, w_status = st, w_createdAt = now, w_task = None, w_cancel = None\<rparr>"

subsection \<open>Managers\<close>

text \<open>
  Modelled from the spec: package manager (\<^verbatim>\<open>WorkersManager\<close>, \<^verbatim>\<open>TasksManager\<close>) is not
  among the sources. A manager holds the items it manages (\<^verbatim>\<open>GetAll\<close>, \<^verbatim>\<open>GetById\<close>) and,
  of these, the ones waiting to be pulled: the pool of idle workers, the queue of
  pending tasks. \<^verbatim>\<open>Push\<close> inserts an item if it is not present and is idempotent on
  the id; \<^verbatim>\<open>Pull\<close> takes one waiting item out of the pool or queue, the item staying
  managed while it is borrowed; \<^verbatim>\<open>Remove\<close> drops the item altogether.
\<close>

record Manager =
  m_items :: "addr list"
  m_queue :: "addr list"

definition NewManager :: Manager where
  "NewManager = \<lparr>m_items = [], m_queue = []\<rparr>"

definition Push :: "(addr \<Rightarrow> string) \<Rightarrow> addr \<Rightarrow> Manager \<Rightarrow> Manager \<times> error option" where
  "Push ident a m =
     (if (\<exists>b \<in> set (m_items m). ident b = ident a \<and> b \<noteq> a) \<or> a \<in> set (m_queue m)
      then (m, Some (errors_New ''item already exists''))
      else (m\<lparr>m_items := (if a \<in> set (m_items m) then m_items m else m_items m @ [a]),
              m_queue := m_queue m @ [a]\<rparr>, None))"

definition Remove :: "addr \<Rightarrow> Manager \<Rightarrow> Manager" where
  "Remove a m = m\<lparr>m_items := removeAll a (m_items m), m_queue := removeAll a (m_queue m)\<rparr>"

definition GetAll :: "Manager \<Rightarrow> addr list" where
  "GetAll m = m_items m"

definition GetById :: "(addr \<Rightarrow> string) \<Rightarrow> string \<Rightarrow> Manager \<Rightarrow> addr option" where
  "GetById ident i m = find (\<lambda>a. ident a = i) (m_items m)"

text \<open>
  Modelled from the spec: the task queue's \<^verbatim>\<open>Pull\<close> returns the oldest-enqueued
  pending task whose \<^verbatim>\<open>allow_start_at\<close> is not after now, and none when no task is
  eligible.
\<close>

definition eligible :: "instant \<Rightarrow> TasksManagerItem \<Rightarrow> bool" where
  "eligible now it = (case t_allowStartAt it of None \<Rightarrow> True | Some t \<Rightarrow> t \<le> now)"

definition PullTask :: "(addr \<Rightarrow> TasksManagerItem) \<Rightarrow> instant \<Rightarrow> Manager \<Rightarrow> addr option \<times> Manager" where
  "PullTask st now m =
     (case find (\<lambda>a. eligible now (st a)) (m_queue m) of
        None \<Rightarrow> (None, m)
      | Some a \<Rightarrow> (Some a, m\<lparr>m_queue := removeAll a (m_queue m)\<rparr>))"

text \<open>
  Modelled from the spec: the worker pool's \<^verbatim>\<open>Pull\<close> returns the idle worker (status
  Wait) with the oldest \<^verbatim>\<open>created_at\<close>, ties broken by id: of two equally old workers
  the one with the smaller id, ids compared as Go compares strings, byte by byte.
\<close>

fun string_less :: "string \<Rightarrow> string \<Rightarrow> bool" where
  "string_less [] [] = False"
| "string_less [] (y # ys) = True"
| "string_less (x # xs) [] = False"
| "string_less (x # xs) (y # ys) =
     ((of_char x :: nat) < of_char y \<or> (x = y \<and> string_less xs ys))"

definition older :: "WorkersManagerItem \<Rightarrow> WorkersManagerItem \<Rightarrow> bool" where
  "older v w =
     (w_createdAt v < w_createdAt w \<or>
      (w_createdAt v = w_createdAt w \<and> string_less (WorkerId (w_worker v)) (WorkerId (w_worker w))))"

fun oldest :: "(addr \<Rightarrow> WorkersManagerItem) \<Rightarrow> addr list \<Rightarrow> addr option" where
  "oldest st [] = None"
| "oldest st (a # as) =
     (case oldest st as of
        None \<Rightarrow> Some a
      | Some b \<Rightarrow> if older (st b) (st a) then Some b else Some a)"

definition PullWorker :: "(addr \<Rightarrow> WorkersManagerItem) \<Rightarrow> Manager \<Rightarrow> addr option \<times> Manager" where
  "PullWorker st m =
     (case oldest st (filter (\<lambda>a. w_status (st a) = WorkerStatusWait) (m_queue m)) of
        None \<Rightarrow> (None, m)
      | Some a \<Rightarrow> (Some a, m\<lparr>m_queue := removeAll a (m_queue m)\<rparr>))"

subsection \<open>Events, envelopes and the dispatcher\<close>

text \<open>The calls of \<^verbatim>\<open>listeners.AsyncTrigger\<close>, in the order the dispatcher makes them.\<close>

datatype Event =
    EventDispatcherStatusChanged DispatcherStatus DispatcherStatus
  | EventWorkerAdd addr
  | EventWorkerRemove addr
  | EventWorkerStatusChanged addr WorkerStatus WorkerStatus
  | EventTaskAdd addr
  | EventTaskRemove addr
  | EventTaskStatusChanged addr int int
  | EventTaskExecuteStart addr addr
  | EventTaskExecuteStop addr addr "string option" "error option"

record SimpleDispatcherResult =
  workerItem :: addr
  taskItem :: addr
  result :: "string option"
  err :: "error option"
  cancel :: bool

text \<open>
  An execution is one call of \<^verbatim>\<open>doRunTask\<close>: its pair of items; whether the goroutine
  has passed its prologue; its context, a child of the dispatcher's context with the
  task's timeout as deadline when that is positive; the one-slot channel \<^verbatim>\<open>done\<close>;
  the envelope its \<^verbatim>\<open>select\<close> has chosen and is sending on \<^verbatim>\<open>d.results\<close>; and whether
  that send has gone through.
\<close>

record Execution =
  x_worker :: addr
  x_task :: addr
  x_begun :: bool
  x_deadline :: bool
  x_ctx :: Context
  x_done :: "SimpleDispatcherResult option"
  x_envelope :: "SimpleDispatcherResult option"
  x_sent :: bool

text \<open>
  The goroutine of \<^verbatim>\<open>doResultCollector\<close>: not running; waiting in its \<^verbatim>\<open>select\<close>; or,
  at the end of a round, past the check of \<^verbatim>\<open>notifyAllowExecuteTasks\<close> and at its send.
\<close>

datatype Collector = Collector_none | Collector_select | Collector_notify

text \<open>
  The dispatcher: its fields, the two stores of manager items, the executions, and
  what the goroutines around it are doing. \<open>dispatching\<close>: the goroutine of
  \<^verbatim>\<open>doDispatch\<close> is running. \<open>senders\<close>: the callers of \<^verbatim>\<open>AddWorker\<close> and
  \<^verbatim>\<open>AddTask\<close> that are past the check of \<^verbatim>\<open>notifyAllowExecuteTasks\<close> and at its
  send. \<open>run_notify\<close>: \<^verbatim>\<open>Run\<close> is there. \<open>results\<close>: the envelopes that went through
  \<^verbatim>\<open>d.results\<close> so far.
\<close>

record SimpleDispatcher =
  status :: DispatcherStatus
  ctx :: Context
  workers :: Manager
  tasks :: Manager
  wstore :: "addr \<Rightarrow> WorkersManagerItem"
  tstore :: "addr \<Rightarrow> TasksManagerItem"
  wnext :: addr
  tnext :: addr
  allowExecuteTasks :: nat
  senders :: nat
  run_notify :: bool
  collector :: Collector
  dispatching :: bool
  executions :: "Execution list"
  results :: "SimpleDispatcherResult list"
  events :: "Event list"
  logged :: "string list"

section \<open>The dispatcher's operations\<close>

definition NewSimpleDispatcherWithContext :: "Context \<Rightarrow> SimpleDispatcher" where
  "NewSimpleDispatcherWithContext parent =
     \<lparr>status = DispatcherStatusWait, ctx = parent, workers = NewManager, tasks = NewManager,
      wstore = (\<lambda>a. NewWorkersManagerItem \<lparr>WorkerId = []\<rparr> WorkerStatusWait 0),
      tstore = (\<lambda>a. NewTasksManagerItem \<lparr>Id = [], Repeats = 0, RepeatInterval = 0, Timeout = 0\<rparr> TaskStatusUndefined),
      wnext = 0, tnext = 0, allowExecuteTasks = 0, senders = 0, run_notify = False,
      collector = Collector_none,
      dispatching = False, executions = [], results = [],
      events = [EventDispatcherStatusChanged DispatcherStatusWait DispatcherStatusUndefined], logged = []\<rparr>"

definition NewSimpleDispatcher :: SimpleDispatcher where
  "NewSimpleDispatcher = NewSimpleDispatcherWithContext None"

definition AsyncTrigger :: "Event \<Rightarrow> SimpleDispatcher \<Rightarrow> SimpleDispatcher" where
  "AsyncTrigger e d = d\<lparr>events := events d @ [e]\<rparr>"

definition IsStatus :: "SimpleDispatcher \<Rightarrow> DispatcherStatus \<Rightarrow> bool" where
  "IsStatus d s = (status d = s)"

definition update_task :: "addr \<Rightarrow> (TasksManagerItem \<Rightarrow> TasksManagerItem) \<Rightarrow> SimpleDispatcher \<Rightarrow> SimpleDispatcher" where
  "update_task a f d = d\<lparr>tstore := (tstore d)(a := f (tstore d a))\<rparr>"

definition update_worker :: "addr \<Rightarrow> (WorkersManagerItem \<Rightarrow> WorkersManagerItem) \<Rightarrow> SimpleDispatcher \<Rightarrow> SimpleDispatcher" where
  "update_worker a f d = d\<lparr>wstore := (wstore d)(a := f (wstore d a))\<rparr>"

definition task_id :: "SimpleDispatcher \<Rightarrow> addr \<Rightarrow> string" where
  "task_id d a = Id (t_task (tstore d a))"

definition worker_id :: "SimpleDispatcher \<Rightarrow> addr \<Rightarrow> string" where
  "worker_id d a = WorkerId (w_worker (wstore d a))"

definition setStatusDispatcher :: "DispatcherStatus \<Rightarrow> SimpleDispatcher \<Rightarrow> SimpleDispatcher" where
  "setStatusDispatcher s d =
     (let last = status d
      in AsyncTrigger (EventDispatcherStatusChanged s last) (d\<lparr>status := s\<rparr>))"

definition setStatusWorker :: "addr \<Rightarrow> WorkerStatus \<Rightarrow> SimpleDispatcher \<Rightarrow> SimpleDispatcher" where
  "setStatusWorker a s d =
     (let last = w_status (wstore d a)
      in AsyncTrigger (EventWorkerStatusChanged a s last) (update_worker a (\<lambda>w. w\<lparr>w_status := s\<rparr>) d))"

definition setStatusTask :: "addr \<Rightarrow> int \<Rightarrow> SimpleDispatcher \<Rightarrow> SimpleDispatcher" where
  "setStatusTask a s d =
     (let last = t_status (tstore d a)
      in AsyncTrigger (EventTaskStatusChanged a s last) (update_task a (\<lambda>t. t\<lparr>t_status := s\<rparr>) d))"

subsection \<open>The notify channel\<close>

text \<open>
  \<^verbatim>\<open>allowExecuteTasks\<close> is made with \<^verbatim>\<open>make(chan struct{}, 1)\<close>; the model keeps its
  length. A send on a buffered channel goes through when the buffer has room and
  blocks the sender otherwise: \<open>None\<close>.

  \<^verbatim>\<open>notifyAllowExecuteTasks\<close> is a check and then a send, and other goroutines run
  between the two. The check reads the status and the length of the channel; a caller
  that passes it is at the send from then on. For a caller of \<^verbatim>\<open>AddWorker\<close> or
  \<^verbatim>\<open>AddTask\<close> that is one more of the \<open>senders\<close>; the send of one of them is a step
  of its own.
\<close>

definition allowExecuteTasks_cap :: nat where
  "allowExecuteTasks_cap = 1"

definition chan_send :: "nat \<Rightarrow> nat \<Rightarrow> nat option" where
  "chan_send cap n = (if n < cap then Some (Suc n) else None)"

definition notifyAllowExecuteTasks_check :: "SimpleDispatcher \<Rightarrow> bool" where
  "notifyAllowExecuteTasks_check d = (IsStatus d DispatcherStatusProcess \<and> allowExecuteTasks d = 0)"

definition notifyAllowExecuteTasks_send :: "SimpleDispatcher \<Rightarrow> SimpleDispatcher option" where
  "notifyAllowExecuteTasks_send d =
     (case chan_send allowExecuteTasks_cap (allowExecuteTasks d) of
        None \<Rightarrow> None
      | Some n \<Rightarrow> Some (d\<lparr>allowExecuteTasks := n\<rparr>))"

definition notifyAllowExecuteTasks :: "SimpleDispatcher \<Rightarrow> SimpleDispatcher" where
  "notifyAllowExecuteTasks d =
     (if notifyAllowExecuteTasks_check d then d\<lparr>senders := Suc (senders d)\<rparr> else d)"

definition senders_send :: "SimpleDispatcher \<Rightarrow> SimpleDispatcher option" where
  "senders_send d =
     (if senders d = 0 then Some d
      else case notifyAllowExecuteTasks_send d of
             None \<Rightarrow> None
           | Some d1 \<Rightarrow> Some (d1\<lparr>senders := senders d - 1\<rparr>))"

subsection \<open>The result collector\<close>

definition pushWorker :: "addr \<Rightarrow> SimpleDispatcher \<Rightarrow> SimpleDispatcher \<times> error option" where
  "pushWorker a d = (case Push (worker_id d) a (workers d) of (m, e) \<Rightarrow> (d\<lparr>workers := m\<rparr>, e))"

definition pushTask :: "addr \<Rightarrow> SimpleDispatcher \<Rightarrow> SimpleDispatcher \<times> error option" where
  "pushTask a d = (case Push (task_id d) a (tasks d) of (m, e) \<Rightarrow> (d\<lparr>tasks := m\<rparr>, e))"

definition log_Printf :: "string \<Rightarrow> SimpleDispatcher \<times> error option \<Rightarrow> SimpleDispatcher" where
  "log_Printf msg p =
     (case p of (d, None) \<Rightarrow> d | (d, Some e) \<Rightarrow> d\<lparr>logged := logged d @ [msg @ Error e]\<rparr>)"

text \<open>
  One round of the loop of \<^verbatim>\<open>doResultCollector\<close>, for the envelope \<open>r\<close> received from
  \<^verbatim>\<open>d.results\<close>, up to the check of its \<^verbatim>\<open>notifyAllowExecuteTasks\<close>; \<open>now\<close> is what
  \<^verbatim>\<open>time.Now()\<close> returns.
\<close>

definition collect_worker :: "SimpleDispatcherResult \<Rightarrow> SimpleDispatcher \<Rightarrow> SimpleDispatcher" where
  "collect_worker r d =
     (if \<not> cancel r \<or> \<not> w_status (wstore d (workerItem r)) = WorkerStatusCancel
      then log_Printf ''Push worker failed with error: ''
             (pushWorker (workerItem r) (setStatusWorker (workerItem r) WorkerStatusWait d))
      else d)"

definition collect_task :: "instant \<Rightarrow> SimpleDispatcherResult \<Rightarrow> SimpleDispatcher \<Rightarrow> SimpleDispatcher" where
  "collect_task now r d =
     (if \<not> cancel r \<and> \<not> t_status (tstore d (taskItem r)) = TaskStatusCancel
      then
        let d1 = (if err r \<noteq> None then setStatusTask (taskItem r) TaskStatusFail d
                  else setStatusTask (taskItem r) TaskStatusSuccess d);
            repeats = Repeats (t_task (tstore d1 (taskItem r)))
        in if repeats <s 0 \<or> t_attempts (tstore d1 (taskItem r)) <s repeats
           then
             let repeatInterval = RepeatInterval (t_task (tstore d1 (taskItem r)));
                 d2 = (if 0 <s repeatInterval
                       then update_task (taskItem r) (\<lambda>t. t\<lparr>t_allowStartAt := Some (Add now repeatInterval)\<rparr>) d1
                       else d1);
                 d3 = setStatusTask (taskItem r) TaskStatusRepeatWait d2
             in log_Printf ''Push task failed with error: '' (pushTask (taskItem r) d3)
           else d1\<lparr>tasks := Remove (taskItem r) (tasks d1)\<rparr>
      else d)"

definition doResultCollector :: "instant \<Rightarrow> SimpleDispatcherResult \<Rightarrow> SimpleDispatcher \<Rightarrow> SimpleDispatcher" where
  "doResultCollector now r d =
     (let d1 = update_task (taskItem r) (\<lambda>t. t\<lparr>t_cancel := None\<rparr>) d;
          d2 = update_worker (workerItem r) (\<lambda>w. w\<lparr>w_cancel := None\<rparr>) d1
      in if IsStatus d2 DispatcherStatusCancel then d2
         else
           let d3 = update_worker (workerItem r) (\<lambda>w. w\<lparr>w_task := None\<rparr>) d2;
               d4 = collect_worker r d3;
               d5 = collect_task now r d4;
               d6 = AsyncTrigger (EventTaskExecuteStop (taskItem r) (workerItem r) (result r) (err r)) d5
           in if notifyAllowExecuteTasks_check d6 then d6\<lparr>collector := Collector_notify\<rparr> else d6)"

text \<open>
  The other two things the collector does: the send of its \<^verbatim>\<open>notifyAllowExecuteTasks\<close>,
  after which it is back in its \<^verbatim>\<open>select\<close>; and, from the \<^verbatim>\<open>select\<close>, the return
  when the dispatcher's context is done.
\<close>

definition doResultCollector_notify :: "SimpleDispatcher \<Rightarrow> SimpleDispatcher option" where
  "doResultCollector_notify d =
     (if collector d = Collector_notify
      then case notifyAllowExecuteTasks_send d of
             None \<Rightarrow> None
           | Some d1 \<Rightarrow> Some (d1\<lparr>collector := Collector_select\<rparr>)
      else Some d)"

definition doResultCollector_return :: "SimpleDispatcher \<Rightarrow> SimpleDispatcher" where
  "doResultCollector_return d =
     (if collector d = Collector_select \<and> ctx d \<noteq> None then d\<lparr>collector := Collector_none\<rparr> else d)"

text \<open>The status changes of the task item \<open>a\<close> among the events, as pairs (new, last).\<close>

fun task_status_changes :: "addr \<Rightarrow> Event list \<Rightarrow> (int \<times> int) list" where
  "task_status_changes a [] = []"
| "task_status_changes a (EventTaskStatusChanged b s l # es) =
     (if a = b then (s, l) # task_status_changes a es else task_status_changes a es)"
| "task_status_changes a (e # es) = task_status_changes a es"

fun worker_status_changes :: "addr \<Rightarrow> Event list \<Rightarrow> (WorkerStatus \<times> WorkerStatus) list" where
  "worker_status_changes a [] = []"
| "worker_status_changes a (EventWorkerStatusChanged b s l # es) =
     (if a = b then (s, l) # worker_status_changes a es else worker_status_changes a es)"
| "worker_status_changes a (e # es) = worker_status_changes a es"

subsection \<open>Dispatching\<close>

text \<open>
  \<^verbatim>\<open>go d.doRunTask(castWorker, castTask)\<close> starts an execution; its prologue runs when
  the scheduler gets to it.
\<close>

definition go_doRunTask :: "addr \<Rightarrow> addr \<Rightarrow> SimpleDispatcher \<Rightarrow> SimpleDispatcher" where
  "go_doRunTask w t d =
     d\<lparr>executions := executions d @
        [\<lparr>x_worker = w, x_task = t, x_begun = False, x_deadline = False, x_ctx = None,
          x_done = None, x_envelope = None, x_sent = False\<rparr>]\<rparr>"

lemma oldest_mem: "oldest st as = Some a \<Longrightarrow> a \<in> set as"
  by (induction as arbitrary: a) (auto split: option.splits if_splits)

lemma PullWorker_shrinks:
  "fst (PullWorker st m) = Some a \<Longrightarrow> length (m_queue (snd (PullWorker st m))) < length (m_queue m)"
  by (auto simp: PullWorker_def split: option.splits dest!: oldest_mem intro: length_removeAll_less)

text \<open>
  The loop of \<^verbatim>\<open>doExecuteTasks\<close>: both pulls are made, then either the pair is
  launched and the loop goes on, or what was pulled is pushed back (the error of
  \<^verbatim>\<open>Push\<close> dropped) and the loop returns. Each launch takes a worker out of the pool.
\<close>

function doExecuteTasks_loop :: "instant \<Rightarrow> SimpleDispatcher \<Rightarrow> SimpleDispatcher" where
  "doExecuteTasks_loop now d =
     (let pullWorker = fst (PullWorker (wstore d) (workers d));
          pullTask = fst (PullTask (tstore d) now (tasks d));
          d1 = d\<lparr>workers := snd (PullWorker (wstore d) (workers d)),
                 tasks := snd (PullTask (tstore d) now (tasks d))\<rparr>
      in case pullWorker of
           Some castWorker \<Rightarrow>
             (case pullTask of
                Some castTask \<Rightarrow>
                  doExecuteTasks_loop now
                    (go_doRunTask castWorker castTask
                       (AsyncTrigger (EventTaskExecuteStart castTask castWorker) d1))
              | None \<Rightarrow> fst (pushWorker castWorker d1))
         | None \<Rightarrow>
             (case pullTask of
                Some castTask \<Rightarrow> fst (pushTask castTask d1)
              | None \<Rightarrow> d1))"
  by pat_completeness auto
termination
  by (relation "measure (\<lambda>(now, d). length (m_queue (workers d)))")
     (auto simp: go_doRunTask_def AsyncTrigger_def intro: PullWorker_shrinks [OF sym])

declare doExecuteTasks_loop.simps [simp del]

definition doExecuteTasks :: "instant \<Rightarrow> SimpleDispatcher \<Rightarrow> SimpleDispatcher" where
  "doExecuteTasks now d =
     (if \<not> IsStatus d DispatcherStatusProcess then d else doExecuteTasks_loop now d)"

text \<open>
  \<^verbatim>\<open>doDispatch\<close>, while its goroutine runs: a signal received from
  \<^verbatim>\<open>allowExecuteTasks\<close>, or a tick of the ticker, runs \<^verbatim>\<open>doExecuteTasks\<close>; with the
  dispatcher's context done it returns.
\<close>

definition doDispatch_signal :: "instant \<Rightarrow> SimpleDispatcher \<Rightarrow> SimpleDispatcher" where
  "doDispatch_signal now d =
     (if \<not> dispatching d \<or> allowExecuteTasks d = 0 then d
      else doExecuteTasks now (d\<lparr>allowExecuteTasks := allowExecuteTasks d - 1\<rparr>))"

definition doDispatch_tick :: "instant \<Rightarrow> SimpleDispatcher \<Rightarrow> SimpleDispatcher" where
  "doDispatch_tick now d = (if \<not> dispatching d then d else doExecuteTasks now d)"

definition doDispatch_return :: "SimpleDispatcher \<Rightarrow> SimpleDispatcher" where
  "doDispatch_return d = (if dispatching d \<and> ctx d \<noteq> None then d\<lparr>dispatching := False\<rparr> else d)"

subsection \<open>Running a task\<close>

text \<open>
  The prologue of \<^verbatim>\<open>doRunTask\<close>, up to the two \<^verbatim>\<open>SetCancel\<close>, for the execution number
  \<open>n\<close> of the worker item \<open>wi\<close> and the task item \<open>ti\<close>, in its two halves: the marks,
  up to the status change of the task with the event it triggers, and the stamps.
\<close>

definition doRunTask_mark :: "addr \<Rightarrow> addr \<Rightarrow> SimpleDispatcher \<Rightarrow> SimpleDispatcher" where
  "doRunTask_mark wi ti d =
     (let task = t_task (tstore d ti);
          d1 = update_worker wi (\<lambda>w. w\<lparr>w_task := Some task\<rparr>) d;
          d2 = setStatusWorker wi WorkerStatusProcess d1;
          d3 = update_task ti (\<lambda>t. t\<lparr>t_attempts := t_attempts t + 1\<rparr>) d2
      in setStatusTask ti TaskStatusProcess d3)"

definition doRunTask_stamp :: "instant \<Rightarrow> nat \<Rightarrow> addr \<Rightarrow> addr \<Rightarrow> SimpleDispatcher \<Rightarrow> SimpleDispatcher" where
  "doRunTask_stamp now n wi ti d4 =
     (let d5 = (if t_attempts (tstore d4 ti) = 1
                then update_task ti (\<lambda>t. t\<lparr>t_firstStartedAt := Some now\<rparr>) d4 else d4);
          d6 = update_task ti (\<lambda>t. t\<lparr>t_lastStartedAt := Some now\<rparr>) d5;
          d7 = update_task ti (\<lambda>t. t\<lparr>t_cancel := Some n\<rparr>) d6
      in update_worker wi (\<lambda>w. w\<lparr>w_cancel := Some n\<rparr>) d7)"

definition doRunTask_prologue :: "instant \<Rightarrow> nat \<Rightarrow> addr \<Rightarrow> addr \<Rightarrow> SimpleDispatcher \<Rightarrow> SimpleDispatcher" where
  "doRunTask_prologue now n wi ti d = doRunTask_stamp now n wi ti (doRunTask_mark wi ti d)"

definition doRunTask_begin :: "instant \<Rightarrow> nat \<Rightarrow> SimpleDispatcher \<Rightarrow> SimpleDispatcher" where
  "doRunTask_begin now n d =
     (if n < length (executions d) \<and> \<not> x_begun (executions d ! n)
      then
        let x = executions d ! n;
            timeout = Timeout (t_task (tstore d (x_task x)));
            d1 = doRunTask_prologue now n (x_worker x) (x_task x) d
        in d1\<lparr>executions := (executions d1)
               [n := x\<lparr>x_begun := True, x_deadline := 0 <s timeout, x_ctx := ctx d\<rparr>]\<rparr>
      else d)"

text \<open>
  What \<^verbatim>\<open>Worker().RunTask\<close> does is an input: it returns a result and an error, or it
  panics with a value. The inner goroutine puts one envelope on \<^verbatim>\<open>done\<close>, from the
  deferred \<^verbatim>\<open>recover\<close> when the call panicked.
\<close>

datatype Outcome = Returned "string option" "error option" | Panicked string

fun RunTask_goroutine :: "addr \<Rightarrow> addr \<Rightarrow> Outcome \<Rightarrow> SimpleDispatcherResult" where
  "RunTask_goroutine w t (Returned res e) =
     \<lparr>workerItem = w, taskItem = t, result = res, err = e, cancel = False\<rparr>"
| "RunTask_goroutine w t (Panicked v) =
     \<lparr>workerItem = w, taskItem = t, result = Some v, err = Some (errors_New ''Panic recovered''),
      cancel = False\<rparr>"

definition doRunTask_function :: "nat \<Rightarrow> Outcome \<Rightarrow> SimpleDispatcher \<Rightarrow> SimpleDispatcher" where
  "doRunTask_function n out d =
     (if n < length (executions d) \<and> x_begun (executions d ! n) \<and> x_done (executions d ! n) = None
      then
        let x = executions d ! n
        in d\<lparr>executions := (executions d)
               [n := x\<lparr>x_done := Some (RunTask_goroutine (x_worker x) (x_task x) out)\<rparr>]\<rparr>
      else d)"

text \<open>
  The \<^verbatim>\<open>select\<close> of \<^verbatim>\<open>doRunTask\<close> takes a case that is ready: the context of the
  execution is done, or \<^verbatim>\<open>done\<close> holds an envelope. \<open>None\<close>: the case is not ready.
  With the case taken, the goroutine is at its send on \<^verbatim>\<open>d.results\<close>.
\<close>

datatype Branch = case_ctx_Done | case_done

fun select_case :: "Branch \<Rightarrow> Execution \<Rightarrow> SimpleDispatcherResult option" where
  "select_case case_ctx_Done x =
     (case x_ctx x of
        None \<Rightarrow> None
      | Some e \<Rightarrow> Some \<lparr>workerItem = x_worker x, taskItem = x_task x, result = None,
                        err = Some e, cancel = (e = Canceled)\<rparr>)"
| "select_case case_done x = x_done x"

definition doRunTask_select :: "nat \<Rightarrow> Branch \<Rightarrow> SimpleDispatcher \<Rightarrow> SimpleDispatcher" where
  "doRunTask_select n b d =
     (if n < length (executions d) \<and> x_begun (executions d ! n) \<and> \<not> x_sent (executions d ! n)
         \<and> x_envelope (executions d ! n) = None
      then
        case select_case b (executions d ! n) of
          None \<Rightarrow> d
        | Some r \<Rightarrow> d\<lparr>executions := (executions d)[n := (executions d ! n)\<lparr>x_envelope := Some r\<rparr>]\<rparr>
      else d)"

text \<open>
  \<^verbatim>\<open>d.results\<close> is unbuffered: the send goes through when the collector is in its
  \<^verbatim>\<open>select\<close> and takes the envelope, and blocks otherwise (\<open>None\<close>), for good once the
  collector has returned. The collector then runs its round; the deferred
  \<^verbatim>\<open>ctxCancel\<close> of \<^verbatim>\<open>doRunTask\<close> follows the send.
\<close>

definition results_send :: "nat \<Rightarrow> SimpleDispatcherResult \<Rightarrow> SimpleDispatcher \<Rightarrow> SimpleDispatcher" where
  "results_send n r d =
     d\<lparr>executions := (executions d)
          [n := (executions d ! n)\<lparr>x_sent := True,
                  x_ctx := ctx_finish Canceled (x_ctx (executions d ! n))\<rparr>],
       results := results d @ [r]\<rparr>"

definition doRunTask_send :: "instant \<Rightarrow> nat \<Rightarrow> SimpleDispatcher \<Rightarrow> SimpleDispatcher option" where
  "doRunTask_send now n d =
     (if n < length (executions d) \<and> \<not> x_sent (executions d ! n)
      then
        case x_envelope (executions d ! n) of
          None \<Rightarrow> Some d
        | Some r \<Rightarrow>
            if collector d = Collector_select
            then Some (doResultCollector now r (results_send n r d))
            else None
      else Some d)"

definition deadline :: "nat \<Rightarrow> SimpleDispatcher \<Rightarrow> SimpleDispatcher" where
  "deadline n d =
     (if n < length (executions d) \<and> x_begun (executions d ! n) \<and> x_deadline (executions d ! n)
      then
        let x = executions d ! n
        in d\<lparr>executions := (executions d)[n := x\<lparr>x_ctx := ctx_finish DeadlineExceeded (x_ctx x)\<rparr>]\<rparr>
      else d)"

subsection \<open>The public operations\<close>

text \<open>
  \<^verbatim>\<open>Cancel()\<close> of a manager item calls the handle the item holds, if any: the context of
  that execution is cancelled.
\<close>

definition item_Cancel :: "nat option \<Rightarrow> SimpleDispatcher \<Rightarrow> SimpleDispatcher" where
  "item_Cancel h d =
     (case h of
        None \<Rightarrow> d
      | Some n \<Rightarrow>
          if n < length (executions d)
          then d\<lparr>executions := (executions d)
                 [n := (executions d ! n)\<lparr>x_ctx := ctx_finish Canceled (x_ctx (executions d ! n))\<rparr>]\<rparr>
          else d)"

definition AddWorker :: "Worker \<Rightarrow> instant \<Rightarrow> SimpleDispatcher \<Rightarrow> SimpleDispatcher \<times> error option" where
  "AddWorker worker now d =
     (let item = wnext d;
          d1 = d\<lparr>wstore := (wstore d)(item := NewWorkersManagerItem worker WorkerStatusWait now),
                 wnext := Suc (wnext d)\<rparr>
      in case pushWorker item d1 of
           (d2, Some e) \<Rightarrow> (d2, Some e)
         | (d2, None) \<Rightarrow> (notifyAllowExecuteTasks (AsyncTrigger (EventWorkerAdd item) d2), None))"

definition RemoveWorker :: "Worker \<Rightarrow> SimpleDispatcher \<Rightarrow> SimpleDispatcher" where
  "RemoveWorker worker d =
     (case GetById (worker_id d) (WorkerId worker) (workers d) of
        None \<Rightarrow> d
      | Some item \<Rightarrow>
          let d1 = setStatusWorker item WorkerStatusCancel d;
              d2 = item_Cancel (w_cancel (wstore d1 item)) d1;
              d3 = update_worker item (\<lambda>w. w\<lparr>w_task := None\<rparr>) d2;
              d4 = d3\<lparr>workers := Remove item (workers d3)\<rparr>
          in AsyncTrigger (EventWorkerRemove item) d4)"

definition AddTask :: "Task \<Rightarrow> SimpleDispatcher \<Rightarrow> SimpleDispatcher \<times> error option" where
  "AddTask task d =
     (let item = tnext d;
          d1 = d\<lparr>tstore := (tstore d)(item := NewTasksManagerItem task TaskStatusWait),
                 tnext := Suc (tnext d)\<rparr>
      in case pushTask item d1 of
           (d2, Some e) \<Rightarrow> (d2, Some e)
         | (d2, None) \<Rightarrow> (notifyAllowExecuteTasks (AsyncTrigger (EventTaskAdd item) d2), None))"

definition RemoveTask :: "Task \<Rightarrow> SimpleDispatcher \<Rightarrow> SimpleDispatcher" where
  "RemoveTask task d =
     (case GetById (task_id d) (Id task) (tasks d) of
        None \<Rightarrow> d
      | Some item \<Rightarrow>
          let d1 = setStatusTask item TaskStatusCancel d;
              d2 = item_Cancel (t_cancel (tstore d1 item)) d1;
              d3 = d2\<lparr>tasks := Remove item (tasks d2)\<rparr>
          in AsyncTrigger (EventTaskRemove item) d3)"

text \<open>
  When a context is done, so are the contexts derived from it, with the same error.
  \<open>ctx_Done e\<close>: the dispatcher's context becomes done with \<open>e\<close>, by its own
  \<^verbatim>\<open>ctxCancel\<close> or through the parent it was derived from.
\<close>

definition ctx_Done :: "error \<Rightarrow> SimpleDispatcher \<Rightarrow> SimpleDispatcher" where
  "ctx_Done e d =
     (case ctx d of
        Some e' \<Rightarrow> d
      | None \<Rightarrow>
          d\<lparr>ctx := Some e,
            executions := map (\<lambda>x. if x_begun x then x\<lparr>x_ctx := ctx_finish e (x_ctx x)\<rparr> else x)
                            (executions d)\<rparr>)"

definition Cancel :: "SimpleDispatcher \<Rightarrow> SimpleDispatcher \<times> error option" where
  "Cancel d = (let d1 = ctx_Done Canceled d in (d1, ctx d1))"

text \<open>
  \<^verbatim>\<open>Run\<close> in its stretches: up to the check of its \<^verbatim>\<open>notifyAllowExecuteTasks\<close>, with
  the two goroutines started; the send of that, when the check has passed; from the
  wait for \<^verbatim>\<open>d.ctx.Done()\<close> to \<^verbatim>\<open>d.wg.Wait()\<close>; and the return. \<open>wsc\<close> is the int64 of \<^verbatim>\<open>workers.WorkerStatusCancel\<close>,
  the status \<^verbatim>\<open>Run\<close> passes to \<^verbatim>\<open>setStatusTask\<close>; its declaration is not among the
  sources. The wait group is passed when the collector and \<^verbatim>\<open>doDispatch\<close> have
  returned and every execution that has begun has sent its envelope.
\<close>

definition Run_start :: "SimpleDispatcher \<Rightarrow> error + SimpleDispatcher" where
  "Run_start d =
     (if \<not> IsStatus d DispatcherStatusWait then Inl (errors_New ''Dispatcher is running'')
      else
        let d1 = (setStatusDispatcher DispatcherStatusProcess d)
                   \<lparr>collector := Collector_select, dispatching := True\<rparr>
        in Inr (if notifyAllowExecuteTasks_check d1 then d1\<lparr>run_notify := True\<rparr> else d1))"

definition Run_notify :: "SimpleDispatcher \<Rightarrow> SimpleDispatcher option" where
  "Run_notify d =
     (if run_notify d
      then case notifyAllowExecuteTasks_send d of
             None \<Rightarrow> None
           | Some d1 \<Rightarrow> Some (d1\<lparr>run_notify := False\<rparr>)
      else Some d)"

definition Run_shutdown :: "int \<Rightarrow> SimpleDispatcher \<Rightarrow> SimpleDispatcher" where
  "Run_shutdown wsc d =
     (let d1 = setStatusDispatcher DispatcherStatusCancel d;
          d2 = fold (\<lambda>w. setStatusWorker w WorkerStatusCancel) (GetAll (workers d1)) d1
      in fold (\<lambda>t. setStatusTask t wsc) (GetAll (tasks d2)) d2)"

definition wg_Wait :: "SimpleDispatcher \<Rightarrow> bool" where
  "wg_Wait d =
     (collector d = Collector_none \<and> \<not> dispatching d \<and>
      list_all (\<lambda>x. if x_begun x then x_sent x else True) (executions d))"

definition Run_return :: "SimpleDispatcher \<Rightarrow> SimpleDispatcher \<times> error option" where
  "Run_return d = (setStatusDispatcher DispatcherStatusWait d, None)"

subsection \<open>Interleavings\<close>

datatype Action =
    Act_AddWorker Worker instant
  | Act_RemoveWorker Worker
  | Act_AddTask Task
  | Act_RemoveTask Task
  | Act_Run
  | Act_Run_notify
  | Act_Run_shutdown
  | Act_Run_return
  | Act_Cancel
  | Act_parent_Done bool
  | Act_notify_send
  | Act_signal instant
  | Act_tick instant
  | Act_dispatch_return
  | Act_begin nat instant
  | Act_function nat Outcome
  | Act_deadline nat
  | Act_select nat Branch
  | Act_send nat instant
  | Act_collector_notify
  | Act_collector_return

text \<open>
  One step of the system: a goroutine runs from one blocking point to the next. An
  action whose guard does not hold leaves the state as it is; \<open>None\<close> is a send that
  blocks, on the notify channel when it is full, on \<^verbatim>\<open>d.results\<close> when the collector
  is not receiving.
\<close>

fun step :: "int \<Rightarrow> Action \<Rightarrow> SimpleDispatcher \<Rightarrow> SimpleDispatcher option" where
  "step wsc (Act_AddWorker worker now) d = Some (fst (AddWorker worker now d))"
| "step wsc (Act_RemoveWorker worker) d = Some (RemoveWorker worker d)"
| "step wsc (Act_AddTask task) d = Some (fst (AddTask task d))"
| "step wsc (Act_RemoveTask task) d = Some (RemoveTask task d)"
| "step wsc Act_Run d = (case Run_start d of Inl e \<Rightarrow> Some d | Inr d1 \<Rightarrow> Some d1)"
| "step wsc Act_Run_notify d = Run_notify d"
| "step wsc Act_Run_shutdown d =
     (if IsStatus d DispatcherStatusProcess \<and> \<not> run_notify d \<and> ctx d \<noteq> None
      then Some (Run_shutdown wsc d) else Some d)"
| "step wsc Act_Run_return d =
     (if IsStatus d DispatcherStatusCancel \<and> wg_Wait d then Some (fst (Run_return d)) else Some d)"
| "step wsc Act_Cancel d = Some (fst (Cancel d))"
| "step wsc (Act_parent_Done timed_out) d =
     Some (ctx_Done (if timed_out then DeadlineExceeded else Canceled) d)"
| "step wsc Act_notify_send d = senders_send d"
| "step wsc (Act_signal now) d = Some (doDispatch_signal now d)"
| "step wsc (Act_tick now) d = Some (doDispatch_tick now d)"
| "step wsc Act_dispatch_return d = Some (doDispatch_return d)"
| "step wsc (Act_begin n now) d = Some (doRunTask_begin now n d)"
| "step wsc (Act_function n out) d = Some (doRunTask_function n out d)"
| "step wsc (Act_deadline n) d = Some (deadline n d)"
| "step wsc (Act_select n b) d = Some (doRunTask_select n b d)"
| "step wsc (Act_send n now) d = doRunTask_send now n d"
| "step wsc Act_collector_notify d = doResultCollector_notify d"
| "step wsc Act_collector_return d = Some (doResultCollector_return d)"

fun steps :: "int \<Rightarrow> Action list \<Rightarrow> SimpleDispatcher \<Rightarrow> SimpleDispatcher option" where
  "steps wsc [] d = Some d"
| "steps wsc (a # as) d = (case step wsc a d of None \<Rightarrow> None | Some d1 \<Rightarrow> steps wsc as d1)"

section \<open>Observations and example runs\<close>

definition task_view :: "addr \<Rightarrow> SimpleDispatcher \<Rightarrow> int \<times> int64 \<times> bool \<times> bool" where
  "task_view a d =
     (t_status (tstore d a), t_attempts (tstore d a), a \<in> set (m_queue (tasks d)),
      a \<in> set (m_items (tasks d)))"

definition worker_view :: "addr \<Rightarrow> SimpleDispatcher \<Rightarrow> WorkerStatus \<times> bool \<times> bool" where
  "worker_view a d =
     (w_status (wstore d a), a \<in> set (m_queue (workers d)), a \<in> set (m_items (workers d)))"

text \<open>
  The pairs launched so far; what the two pulls of \<^verbatim>\<open>doExecuteTasks\<close> would return in
  a state; and the state after the two pulls.
\<close>

definition launched :: "SimpleDispatcher \<Rightarrow> (addr \<times> addr) list" where
  "launched d = map (\<lambda>x. (x_worker x, x_task x)) (executions d)"

definition pulls :: "instant \<Rightarrow> SimpleDispatcher \<Rightarrow> addr option \<times> addr option" where
  "pulls now d = (fst (PullWorker (wstore d) (workers d)), fst (PullTask (tstore d) now (tasks d)))"

definition pulled :: "instant \<Rightarrow> SimpleDispatcher \<Rightarrow> SimpleDispatcher" where
  "pulled now d =
     d\<lparr>workers := snd (PullWorker (wstore d) (workers d)),
       tasks := snd (PullTask (tstore d) now (tasks d))\<rparr>"

text \<open>The envelopes sent on \<^verbatim>\<open>d.results\<close>: result, message of the error, cancel flag.\<close>

definition results_view :: "SimpleDispatcher \<Rightarrow> (string option \<times> string option \<times> bool) list" where
  "results_view d = map (\<lambda>r. (result r, map_option Error (err r), cancel r)) (results d)"

text \<open>
  The status changes of the task item \<open>a\<close> triggered between the state \<open>d\<close> and the
  outcome of an operation on it, and the status of the item in that outcome.
\<close>

definition status_changes_during :: "addr \<Rightarrow> SimpleDispatcher \<Rightarrow> SimpleDispatcher option \<Rightarrow> (int \<times> int) list option" where
  "status_changes_during a d res =
     map_option (\<lambda>d'. drop (length (task_status_changes a (events d))) (task_status_changes a (events d'))) res"

definition status_after :: "addr \<Rightarrow> SimpleDispatcher option \<Rightarrow> int option" where
  "status_after a res = map_option (\<lambda>d'. t_status (tstore d' a)) res"

text \<open>
  The attempts and \<^verbatim>\<open>first_started_at\<close> of the task item \<open>a\<close>; the number of
  executions of the item that have begun, each of which has incremented the attempts
  and invokes the task function; the state of the prologue of the execution \<open>n\<close> where
  it triggers the status change of the task, and the event triggered last.
\<close>

definition stamp_view :: "addr \<Rightarrow> SimpleDispatcher \<Rightarrow> int64 \<times> instant option" where
  "stamp_view a d = (t_attempts (tstore d a), t_firstStartedAt (tstore d a))"

definition dispatches :: "addr \<Rightarrow> SimpleDispatcher \<Rightarrow> nat" where
  "dispatches a d = length (filter (\<lambda>x. x_task x = a \<and> x_begun x) (executions d))"

definition marked :: "nat \<Rightarrow> SimpleDispatcher \<Rightarrow> SimpleDispatcher" where
  "marked n d = doRunTask_mark (x_worker (executions d ! n)) (x_task (executions d ! n)) d"

definition last_event :: "SimpleDispatcher \<Rightarrow> Event" where
  "last_event d = last (events d)"

text \<open>A task with a timeout and a single attempt.\<close>

definition task_timeout :: Task where
  "task_timeout = \<lparr>Id = ''t2'', Repeats = 1, RepeatInterval = 0, Timeout = 7\<rparr>"

text \<open>
  Modelled from the spec: the declaration of the worker statuses (package workers) is not
  among the sources. The spec gives a worker the statuses Wait, Process and Cancel;
  numbered the way the generated table numbers the task statuses, from an Undefined
  zero on, Cancel is 3.
\<close>

definition WorkerStatusCancel_Int64 :: int where
  "WorkerStatusCancel_Int64 = 3"

definition task_once :: Task where
  "task_once = \<lparr>Id = ''t1'', Repeats = 0, RepeatInterval = 0, Timeout = 0\<rparr>"

definition task_thrice :: Task where
  "task_thrice = \<lparr>Id = ''t3'', Repeats = 3, RepeatInterval = 5, Timeout = 7\<rparr>"

definition task_forever :: Task where
  "task_forever = \<lparr>Id = ''t4'', Repeats = - 1, RepeatInterval = 0, Timeout = 0\<rparr>"

definition worker_one :: Worker where
  "worker_one = \<lparr>WorkerId = ''w1''\<rparr>"

text \<open>
  A task and a worker are added, \<^verbatim>\<open>Run\<close> starts and sends its signal, the pair is
  dispatched and begins.
\<close>

definition run_begun :: "Task \<Rightarrow> Action list" where
  "run_begun task =
     [Act_AddTask task, Act_AddWorker worker_one 0, Act_Run, Act_Run_notify, Act_signal 1,
      Act_begin 0 2]"

text \<open>
  A dispatcher in Process, its two goroutines running, with one idle worker and two
  pending tasks.
\<close>

definition d_ready :: SimpleDispatcher where
  "d_ready = NewSimpleDispatcher
     \<lparr>status := DispatcherStatusProcess, collector := Collector_select, dispatching := True,
      tstore := (tstore NewSimpleDispatcher)
        (0 := NewTasksManagerItem task_once TaskStatusWait,
         1 := NewTasksManagerItem task_thrice TaskStatusWait),
      wstore := (wstore NewSimpleDispatcher)
        (0 := NewWorkersManagerItem worker_one WorkerStatusWait 0),
      tasks := \<lparr>m_items = [0, 1], m_queue = [0, 1]\<rparr>,
      workers := \<lparr>m_items = [0], m_queue = [0]\<rparr>,
      tnext := 2, wnext := 1\<rparr>"

text \<open>
  A dispatcher in Process, its two goroutines running, whose task item 0, of \<open>task_thrice\<close>, is on its first attempt
  on the worker item 0, and the envelope of a failed attempt.
\<close>

definition d_retry :: SimpleDispatcher where
  "d_retry = NewSimpleDispatcher
     \<lparr>status := DispatcherStatusProcess, collector := Collector_select, dispatching := True,
      tstore := (tstore NewSimpleDispatcher)
        (0 := (NewTasksManagerItem task_thrice TaskStatusProcess)\<lparr>t_attempts := 1\<rparr>),
      wstore := (wstore NewSimpleDispatcher)
        (0 := NewWorkersManagerItem worker_one WorkerStatusProcess 0),
      tasks := \<lparr>m_items = [0], m_queue = []\<rparr>,
      workers := \<lparr>m_items = [0], m_queue = []\<rparr>,
      executions := [\<lparr>x_worker = 0, x_task = 0, x_begun = True, x_deadline = True,
                      x_ctx = None, x_done = None, x_envelope = None, x_sent = False\<rparr>]\<rparr>"

definition r_failed :: SimpleDispatcherResult where
  "r_failed = \<lparr>workerItem = 0, taskItem = 0, result = None, err = Some (errors_New ''boom''),
     cancel = False\<rparr>"


section \<open>The invariants of the runs\<close>

text \<open>
  What the attempts of a task item depend on: of an execution, its task item, whether it
  has begun and has sent, and the task items of the envelopes it holds; of a task item,
  its attempts, the repeats of its task and whether \<^verbatim>\<open>first_started_at\<close> is unset; the
  queue of the task manager.
\<close>

datatype XC = XC (xc_task: addr) (xc_begun: bool) (xc_sent: bool) (xc_done: "addr option")
  (xc_envelope: "addr option")

definition exec_core :: "Execution \<Rightarrow> XC" where
  "exec_core x = XC (x_task x) (x_begun x) (x_sent x) (map_option taskItem (x_done x))
     (map_option taskItem (x_envelope x))"

type_synonym TK = "int64 \<times> int64 \<times> bool"

definition task_core :: "TasksManagerItem \<Rightarrow> TK" where
  "task_core it = (t_attempts it, Repeats (t_task it), t_firstStartedAt it = None)"

definition may_run :: "TK \<Rightarrow> bool" where
  "may_run k = (case k of (a, r, u) \<Rightarrow> a = 0 \<or> r <s 0 \<or> a <s r)"


definition stamped :: "nat \<Rightarrow> TK \<Rightarrow> bool" where
  "stamped n k = (case k of (a, r, u) \<Rightarrow> (a = 0) = u \<and> unat a \<le> n)"

definition dispatched :: "TK \<Rightarrow> TK" where
  "dispatched k = (case k of (a, r, u) \<Rightarrow> (a + 1, r, if a + 1 = 1 then False else u))"

definition tk :: "SimpleDispatcher \<Rightarrow> addr \<Rightarrow> TK" where
  "tk d a = task_core (tstore d a)"

definition xk :: "SimpleDispatcher \<Rightarrow> XC list" where
  "xk d = map exec_core (executions d)"

definition qk :: "SimpleDispatcher \<Rightarrow> addr list" where
  "qk d = m_queue (tasks d)"



definition Stamp :: "nat \<Rightarrow> SimpleDispatcher \<Rightarrow> bool" where
  "Stamp n d \<longleftrightarrow> (\<forall>a. stamped n (tk d a))"

definition same_core :: "SimpleDispatcher \<Rightarrow> SimpleDispatcher \<Rightarrow> bool" where
  "same_core d d' \<longleftrightarrow> qk d' = qk d \<and> tnext d' = tnext d \<and> tk d' = tk d \<and> xk d' = xk d"

definition begun_count :: "addr \<Rightarrow> XC list \<Rightarrow> nat" where
  "begun_count a xs = length (filter (\<lambda>x. xc_task x = a \<and> xc_begun x) xs)"

text \<open>
  A step leaves the attempts and the begun executions as they are, or it is the
  prologue of one execution, or it allocates a new task item.
\<close>

definition kept :: "SimpleDispatcher \<Rightarrow> SimpleDispatcher \<Rightarrow> bool" where
  "kept d d' \<longleftrightarrow> tk d' = tk d \<and> (\<forall>a. begun_count a (xk d') = begun_count a (xk d))"

definition begins :: "nat \<Rightarrow> SimpleDispatcher \<Rightarrow> SimpleDispatcher \<Rightarrow> bool" where
  "begins n d d' \<longleftrightarrow>
     n < length (xk d) \<and> \<not> xc_begun (xk d ! n) \<and>
     tk d' = (tk d)(xc_task (xk d ! n) := dispatched (tk d (xc_task (xk d ! n)))) \<and>
     (\<forall>a. begun_count a (xk d') = begun_count a (xk d) + (if a = xc_task (xk d ! n) then 1 else 0))"

definition allocates :: "int64 \<Rightarrow> SimpleDispatcher \<Rightarrow> SimpleDispatcher \<Rightarrow> bool" where
  "allocates r d d' \<longleftrightarrow> tk d' = (tk d)(tnext d := (0, r, True)) \<and> xk d' = xk d"



section \<open>Basic facts\<close>

lemma task_status_changes_append:
  "task_status_changes a (es @ fs) = task_status_changes a es @ task_status_changes a fs"
  by (induction a es rule: task_status_changes.induct) auto

lemma worker_status_changes_append:
  "worker_status_changes a (es @ fs) = worker_status_changes a es @ worker_status_changes a fs"
  by (induction a es rule: worker_status_changes.induct) auto

lemma update_task_fields [simp]:
  "tstore (update_task a f d) = (tstore d)(a := f (tstore d a))"
  "tasks (update_task a f d) = tasks d" "events (update_task a f d) = events d"
  "wstore (update_task a f d) = wstore d" "workers (update_task a f d) = workers d"
  "status (update_task a f d) = status d" "executions (update_task a f d) = executions d"
  "ctx (update_task a f d) = ctx d" "allowExecuteTasks (update_task a f d) = allowExecuteTasks d"
  "tnext (update_task a f d) = tnext d" "wnext (update_task a f d) = wnext d"
  "results (update_task a f d) = results d"
  "senders (update_task a f d) = senders d"
  "run_notify (update_task a f d) = run_notify d"
  "collector (update_task a f d) = collector d"
  "dispatching (update_task a f d) = dispatching d"
  by (auto simp: update_task_def)

lemma update_worker_fields [simp]:
  "wstore (update_worker a f d) = (wstore d)(a := f (wstore d a))"
  "tasks (update_worker a f d) = tasks d" "events (update_worker a f d) = events d"
  "tstore (update_worker a f d) = tstore d" "workers (update_worker a f d) = workers d"
  "status (update_worker a f d) = status d" "executions (update_worker a f d) = executions d"
  "ctx (update_worker a f d) = ctx d" "allowExecuteTasks (update_worker a f d) = allowExecuteTasks d"
  "tnext (update_worker a f d) = tnext d" "wnext (update_worker a f d) = wnext d"
  "results (update_worker a f d) = results d"
  "senders (update_worker a f d) = senders d"
  "run_notify (update_worker a f d) = run_notify d"
  "collector (update_worker a f d) = collector d"
  "dispatching (update_worker a f d) = dispatching d"
  by (auto simp: update_worker_def)

lemma AsyncTrigger_fields [simp]:
  "events (AsyncTrigger e d) = events d @ [e]"
  "tstore (AsyncTrigger e d) = tstore d" "tasks (AsyncTrigger e d) = tasks d"
  "wstore (AsyncTrigger e d) = wstore d" "workers (AsyncTrigger e d) = workers d"
  "status (AsyncTrigger e d) = status d" "executions (AsyncTrigger e d) = executions d"
  "ctx (AsyncTrigger e d) = ctx d" "allowExecuteTasks (AsyncTrigger e d) = allowExecuteTasks d"
  "tnext (AsyncTrigger e d) = tnext d" "wnext (AsyncTrigger e d) = wnext d"
  "results (AsyncTrigger e d) = results d"
  "senders (AsyncTrigger e d) = senders d"
  "run_notify (AsyncTrigger e d) = run_notify d"
  "collector (AsyncTrigger e d) = collector d"
  "dispatching (AsyncTrigger e d) = dispatching d"
  by (auto simp: AsyncTrigger_def)

lemma setStatusTask_fields [simp]:
  "tstore (setStatusTask a s d) = (tstore d)(a := (tstore d a)\<lparr>t_status := s\<rparr>)"
  "tasks (setStatusTask a s d) = tasks d"
  "events (setStatusTask a s d) = events d @ [EventTaskStatusChanged a s (t_status (tstore d a))]"
  "wstore (setStatusTask a s d) = wstore d" "workers (setStatusTask a s d) = workers d"
  "status (setStatusTask a s d) = status d" "executions (setStatusTask a s d) = executions d"
  "ctx (setStatusTask a s d) = ctx d" "allowExecuteTasks (setStatusTask a s d) = allowExecuteTasks d"
  "tnext (setStatusTask a s d) = tnext d" "wnext (setStatusTask a s d) = wnext d"
  "results (setStatusTask a s d) = results d"
  "senders (setStatusTask a s d) = senders d"
  "run_notify (setStatusTask a s d) = run_notify d"
  "collector (setStatusTask a s d) = collector d"
  "dispatching (setStatusTask a s d) = dispatching d"
  by (auto simp: setStatusTask_def Let_def)

lemma setStatusWorker_fields [simp]:
  "wstore (setStatusWorker a s d) = (wstore d)(a := (wstore d a)\<lparr>w_status := s\<rparr>)"
  "tasks (setStatusWorker a s d) = tasks d"
  "events (setStatusWorker a s d) = events d @ [EventWorkerStatusChanged a s (w_status (wstore d a))]"
  "tstore (setStatusWorker a s d) = tstore d" "workers (setStatusWorker a s d) = workers d"
  "status (setStatusWorker a s d) = status d" "executions (setStatusWorker a s d) = executions d"
  "ctx (setStatusWorker a s d) = ctx d" "allowExecuteTasks (setStatusWorker a s d) = allowExecuteTasks d"
  "tnext (setStatusWorker a s d) = tnext d" "wnext (setStatusWorker a s d) = wnext d"
  "results (setStatusWorker a s d) = results d"
  "senders (setStatusWorker a s d) = senders d"
  "run_notify (setStatusWorker a s d) = run_notify d"
  "collector (setStatusWorker a s d) = collector d"
  "dispatching (setStatusWorker a s d) = dispatching d"
  by (auto simp: setStatusWorker_def Let_def)

lemma setStatusDispatcher_fields [simp]:
  "status (setStatusDispatcher s d) = s"
  "events (setStatusDispatcher s d) = events d @ [EventDispatcherStatusChanged s (status d)]"
  "tstore (setStatusDispatcher s d) = tstore d" "tasks (setStatusDispatcher s d) = tasks d"
  "wstore (setStatusDispatcher s d) = wstore d" "workers (setStatusDispatcher s d) = workers d"
  "executions (setStatusDispatcher s d) = executions d"
  "ctx (setStatusDispatcher s d) = ctx d" "allowExecuteTasks (setStatusDispatcher s d) = allowExecuteTasks d"
  "tnext (setStatusDispatcher s d) = tnext d" "wnext (setStatusDispatcher s d) = wnext d"
  "results (setStatusDispatcher s d) = results d"
  "senders (setStatusDispatcher s d) = senders d"
  "run_notify (setStatusDispatcher s d) = run_notify d"
  "collector (setStatusDispatcher s d) = collector d"
  "dispatching (setStatusDispatcher s d) = dispatching d"
  by (auto simp: setStatusDispatcher_def Let_def)

lemma task_id_keeps [simp]:
  "task_id (AsyncTrigger e d) = task_id d"
  "task_id (setStatusTask a s d) = task_id d"
  "task_id (setStatusWorker b ws d) = task_id d"
  "task_id (update_worker b g d) = task_id d"
  "task_id (update_task a (t_allowStartAt_update x) d) = task_id d"
  "task_id (update_task a (t_cancel_update y) d) = task_id d"
  by (auto simp: task_id_def fun_eq_iff)

lemma worker_id_keeps [simp]:
  "worker_id (AsyncTrigger e d) = worker_id d"
  "worker_id (setStatusTask a s d) = worker_id d"
  "worker_id (setStatusWorker b ws d) = worker_id d"
  "worker_id (update_task a f d) = worker_id d"
  "worker_id (update_worker b (w_task_update x) d) = worker_id d"
  "worker_id (update_worker b (w_cancel_update y) d) = worker_id d"
  by (auto simp: worker_id_def fun_eq_iff)

lemma log_Printf_fields [simp]:
  "tstore (log_Printf m p) = tstore (fst p)" "tasks (log_Printf m p) = tasks (fst p)"
  "events (log_Printf m p) = events (fst p)" "wstore (log_Printf m p) = wstore (fst p)"
  "workers (log_Printf m p) = workers (fst p)" "status (log_Printf m p) = status (fst p)"
  "executions (log_Printf m p) = executions (fst p)" "ctx (log_Printf m p) = ctx (fst p)"
  "allowExecuteTasks (log_Printf m p) = allowExecuteTasks (fst p)"
  "tnext (log_Printf m p) = tnext (fst p)" "wnext (log_Printf m p) = wnext (fst p)"
  "results (log_Printf m p) = results (fst p)"
  "senders (log_Printf m p) = senders (fst p)"
  "run_notify (log_Printf m p) = run_notify (fst p)"
  "collector (log_Printf m p) = collector (fst p)"
  "dispatching (log_Printf m p) = dispatching (fst p)"
  by (auto simp: log_Printf_def split: prod.splits option.splits)

lemma pushTask_fields [simp]:
  "tstore (fst (pushTask a d)) = tstore d" "tasks (fst (pushTask a d)) = fst (Push (task_id d) a (tasks d))"
  "events (fst (pushTask a d)) = events d" "wstore (fst (pushTask a d)) = wstore d"
  "workers (fst (pushTask a d)) = workers d" "status (fst (pushTask a d)) = status d"
  "executions (fst (pushTask a d)) = executions d" "ctx (fst (pushTask a d)) = ctx d"
  "allowExecuteTasks (fst (pushTask a d)) = allowExecuteTasks d"
  "tnext (fst (pushTask a d)) = tnext d" "wnext (fst (pushTask a d)) = wnext d"
  "results (fst (pushTask a d)) = results d"
  "senders (fst (pushTask a d)) = senders d"
  "run_notify (fst (pushTask a d)) = run_notify d"
  "collector (fst (pushTask a d)) = collector d"
  "dispatching (fst (pushTask a d)) = dispatching d"
  by (auto simp: pushTask_def split: prod.splits)

lemma pushWorker_fields [simp]:
  "tstore (fst (pushWorker a d)) = tstore d" "workers (fst (pushWorker a d)) = fst (Push (worker_id d) a (workers d))"
  "events (fst (pushWorker a d)) = events d" "wstore (fst (pushWorker a d)) = wstore d"
  "tasks (fst (pushWorker a d)) = tasks d" "status (fst (pushWorker a d)) = status d"
  "executions (fst (pushWorker a d)) = executions d" "ctx (fst (pushWorker a d)) = ctx d"
  "allowExecuteTasks (fst (pushWorker a d)) = allowExecuteTasks d"
  "tnext (fst (pushWorker a d)) = tnext d" "wnext (fst (pushWorker a d)) = wnext d"
  "results (fst (pushWorker a d)) = results d"
  "senders (fst (pushWorker a d)) = senders d"
  "run_notify (fst (pushWorker a d)) = run_notify d"
  "collector (fst (pushWorker a d)) = collector d"
  "dispatching (fst (pushWorker a d)) = dispatching d"
  by (auto simp: pushWorker_def split: prod.splits)

lemma collect_worker_keeps [simp]:
  "tstore (collect_worker r d) = tstore d" "tasks (collect_worker r d) = tasks d"
  "status (collect_worker r d) = status d" "executions (collect_worker r d) = executions d"
  "ctx (collect_worker r d) = ctx d" "allowExecuteTasks (collect_worker r d) = allowExecuteTasks d"
  "tnext (collect_worker r d) = tnext d" "wnext (collect_worker r d) = wnext d"
  "task_id (collect_worker r d) = task_id d"
  "task_status_changes a (events (collect_worker r d)) = task_status_changes a (events d)"
  "results (collect_worker r d) = results d"
  "senders (collect_worker r d) = senders d"
  "run_notify (collect_worker r d) = run_notify d"
  "collector (collect_worker r d) = collector d"
  "dispatching (collect_worker r d) = dispatching d"
  by (auto simp: collect_worker_def task_status_changes_append task_id_def)

lemma collect_task_retry:
  assumes "\<not> cancel r" "t_status (tstore d (taskItem r)) \<noteq> TaskStatusCancel"
    and "Repeats (t_task (tstore d (taskItem r))) <s 0 \<or>
         t_attempts (tstore d (taskItem r)) <s Repeats (t_task (tstore d (taskItem r)))"
  shows "task_status_changes (taskItem r) (events (collect_task now r d)) =
           task_status_changes (taskItem r) (events d) @
             [(if err r \<noteq> None then TaskStatusFail else TaskStatusSuccess, t_status (tstore d (taskItem r))),
              (TaskStatusRepeatWait, if err r \<noteq> None then TaskStatusFail else TaskStatusSuccess)]"
    and "t_status (tstore (collect_task now r d) (taskItem r)) = TaskStatusRepeatWait"
    and "t_allowStartAt (tstore (collect_task now r d) (taskItem r)) =
           (if 0 <s RepeatInterval (t_task (tstore d (taskItem r)))
            then Some (Add now (RepeatInterval (t_task (tstore d (taskItem r)))))
            else t_allowStartAt (tstore d (taskItem r)))"
    and "tasks (collect_task now r d) = fst (Push (task_id d) (taskItem r) (tasks d))"
  using assms
  by (auto simp: collect_task_def Let_def task_status_changes_append)

lemma collect_task_final:
  assumes "\<not> cancel r" "t_status (tstore d (taskItem r)) \<noteq> TaskStatusCancel"
    and "\<not> (Repeats (t_task (tstore d (taskItem r))) <s 0 \<or>
         t_attempts (tstore d (taskItem r)) <s Repeats (t_task (tstore d (taskItem r))))"
  shows "task_status_changes (taskItem r) (events (collect_task now r d)) =
           task_status_changes (taskItem r) (events d) @
             [(if err r \<noteq> None then TaskStatusFail else TaskStatusSuccess, t_status (tstore d (taskItem r)))]"
    and "t_status (tstore (collect_task now r d) (taskItem r)) =
           (if err r \<noteq> None then TaskStatusFail else TaskStatusSuccess)"
    and "t_allowStartAt (tstore (collect_task now r d) (taskItem r)) = t_allowStartAt (tstore d (taskItem r))"
    and "tasks (collect_task now r d) = Remove (taskItem r) (tasks d)"
  using assms
  by (auto simp: collect_task_def Let_def task_status_changes_append)

text \<open>The state the collector has reached when it triggers \<^verbatim>\<open>EventTaskExecuteStop\<close>.\<close>

definition collected :: "instant \<Rightarrow> SimpleDispatcherResult \<Rightarrow> SimpleDispatcher \<Rightarrow> SimpleDispatcher" where
  "collected now r d =
     collect_task now r (collect_worker r
       (update_worker (workerItem r) (\<lambda>w. w\<lparr>w_task := None\<rparr>)
          (update_worker (workerItem r) (\<lambda>w. w\<lparr>w_cancel := None\<rparr>)
             (update_task (taskItem r) (\<lambda>t. t\<lparr>t_cancel := None\<rparr>) d))))"

lemma doResultCollector_collected:
  assumes "\<not> IsStatus d DispatcherStatusCancel"
  shows "tstore (doResultCollector now r d) = tstore (collected now r d)"
    and "tasks (doResultCollector now r d) = tasks (collected now r d)"
    and "wstore (doResultCollector now r d) = wstore (collected now r d)"
    and "workers (doResultCollector now r d) = workers (collected now r d)"
    and "events (doResultCollector now r d) = events (collected now r d) @
      [EventTaskExecuteStop (taskItem r) (workerItem r) (result r) (err r)]"
  using assms
  by (simp_all add: doResultCollector_def Let_def IsStatus_def collected_def)

lemma collect_task_keeps [simp]:
  "wstore (collect_task now r d) = wstore d" "workers (collect_task now r d) = workers d"
  "status (collect_task now r d) = status d" "executions (collect_task now r d) = executions d"
  "ctx (collect_task now r d) = ctx d" "allowExecuteTasks (collect_task now r d) = allowExecuteTasks d"
  "tnext (collect_task now r d) = tnext d" "wnext (collect_task now r d) = wnext d"
  "worker_status_changes a (events (collect_task now r d)) = worker_status_changes a (events d)"
  "results (collect_task now r d) = results d"
  "senders (collect_task now r d) = senders d"
  "run_notify (collect_task now r d) = run_notify d"
  "collector (collect_task now r d) = collector d"
  "dispatching (collect_task now r d) = dispatching d"
  by (auto simp: collect_task_def Let_def worker_status_changes_append)

lemma collect_task_cancelled:
  "cancel r \<or> t_status (tstore d (taskItem r)) = TaskStatusCancel \<Longrightarrow> collect_task now r d = d"
  by (auto simp: collect_task_def)

lemma results_send_fields [simp]:
  "tstore (results_send n r d) = tstore d" "tasks (results_send n r d) = tasks d"
  "wstore (results_send n r d) = wstore d" "workers (results_send n r d) = workers d"
  "status (results_send n r d) = status d" "events (results_send n r d) = events d"
  "ctx (results_send n r d) = ctx d" "allowExecuteTasks (results_send n r d) = allowExecuteTasks d"
  "tnext (results_send n r d) = tnext d" "wnext (results_send n r d) = wnext d"
  "results (results_send n r d) = results d @ [r]"
  "senders (results_send n r d) = senders d"
  "run_notify (results_send n r d) = run_notify d" "collector (results_send n r d) = collector d"
  "dispatching (results_send n r d) = dispatching d"
  "executions (results_send n r d) = (executions d)
          [n := (executions d ! n)\<lparr>x_sent := True,
                  x_ctx := ctx_finish Canceled (x_ctx (executions d ! n))\<rparr>]"
  "task_id (results_send n r d) = task_id d" "worker_id (results_send n r d) = worker_id d"
  by (auto simp: results_send_def task_id_def worker_id_def)

lemma doResultCollector_keeps [simp]:
  "results (doResultCollector now r d) = results d"
  "executions (doResultCollector now r d) = executions d"
  "ctx (doResultCollector now r d) = ctx d" "status (doResultCollector now r d) = status d"
  "tnext (doResultCollector now r d) = tnext d" "wnext (doResultCollector now r d) = wnext d"
  "allowExecuteTasks (doResultCollector now r d) = allowExecuteTasks d"
  "senders (doResultCollector now r d) = senders d"
  "run_notify (doResultCollector now r d) = run_notify d"
  "dispatching (doResultCollector now r d) = dispatching d"
  by (simp_all add: doResultCollector_def Let_def)

lemma doRunTask_select_fields [simp]:
  "tstore (doRunTask_select n b d) = tstore d" "tasks (doRunTask_select n b d) = tasks d"
  "wstore (doRunTask_select n b d) = wstore d" "workers (doRunTask_select n b d) = workers d"
  "status (doRunTask_select n b d) = status d" "events (doRunTask_select n b d) = events d"
  "ctx (doRunTask_select n b d) = ctx d" "results (doRunTask_select n b d) = results d"
  "allowExecuteTasks (doRunTask_select n b d) = allowExecuteTasks d"
  "senders (doRunTask_select n b d) = senders d"
  "run_notify (doRunTask_select n b d) = run_notify d" "collector (doRunTask_select n b d) = collector d"
  "dispatching (doRunTask_select n b d) = dispatching d"
  "tnext (doRunTask_select n b d) = tnext d" "wnext (doRunTask_select n b d) = wnext d"
  "length (executions (doRunTask_select n b d)) = length (executions d)"
  by (simp_all add: doRunTask_select_def split: option.splits)

lemma doRunTask_select_taken:
  assumes "n < length (executions d)" "x_begun (executions d ! n)" "\<not> x_sent (executions d ! n)"
    and "x_envelope (executions d ! n) = None" and "select_case b (executions d ! n) = Some r"
  shows "executions (doRunTask_select n b d) = (executions d)[n := (executions d ! n)\<lparr>x_envelope := Some r\<rparr>]"
    and "x_envelope (executions (doRunTask_select n b d) ! n) = Some r"
    and "\<not> x_sent (executions (doRunTask_select n b d) ! n)"
  using assms by (simp_all add: doRunTask_select_def)



lemma collected_task_status:
  assumes "\<not> cancel r" and "t_status (tstore d (taskItem r)) \<noteq> TaskStatusCancel"
  shows "task_status_changes (taskItem r) (events (collected now r d)) =
      task_status_changes (taskItem r) (events d) @
        (if err r \<noteq> None then TaskStatusFail else TaskStatusSuccess, t_status (tstore d (taskItem r))) #
        (if Repeats (t_task (tstore d (taskItem r))) <s 0 \<or>
            t_attempts (tstore d (taskItem r)) <s Repeats (t_task (tstore d (taskItem r)))
         then [(TaskStatusRepeatWait, if err r \<noteq> None then TaskStatusFail else TaskStatusSuccess)]
         else [])"
    and "t_status (tstore (collected now r d) (taskItem r)) =
        (if Repeats (t_task (tstore d (taskItem r))) <s 0 \<or>
            t_attempts (tstore d (taskItem r)) <s Repeats (t_task (tstore d (taskItem r)))
         then TaskStatusRepeatWait
         else if err r \<noteq> None then TaskStatusFail else TaskStatusSuccess)"
  using assms
  by (auto simp: collected_def collect_task_def Let_def task_status_changes_append)

lemma collected_cancelled:
  assumes "cancel r"
  shows "task_status_changes a (events (collected now r d)) = task_status_changes a (events d)"
    and "t_status (tstore (collected now r d) a) = t_status (tstore d a)"
  using assms by (auto simp: collected_def collect_task_cancelled)

lemma doRunTask_send_select:
  assumes "n < length (executions d)" "x_begun (executions d ! n)" "\<not> x_sent (executions d ! n)"
    and "x_envelope (executions d ! n) = None" and "select_case b (executions d ! n) = Some r"
    and "collector d = Collector_select"
  shows "doRunTask_send now n (doRunTask_select n b d) =
           Some (doResultCollector now r (results_send n r (doRunTask_select n b d)))"
  using assms by (simp add: doRunTask_send_def doRunTask_select_taken)

lemma doResultCollector_cancelled:
  assumes "IsStatus d DispatcherStatusCancel"
  shows "events (doResultCollector now r d) = events d"
    and "t_status (tstore (doResultCollector now r d) a) = t_status (tstore d a)"
  using assms by (simp_all add: doResultCollector_def Let_def IsStatus_def)

lemma collected_task_cancelled:
  assumes "taskItem r = a" and "t_status (tstore d a) = TaskStatusCancel"
  shows "task_status_changes a (events (collected now r d)) = task_status_changes a (events d)"
    and "t_status (tstore (collected now r d) a) = t_status (tstore d a)"
  using assms by (auto simp: collected_def collect_task_cancelled)

lemma TaskStatus_String_values:
  "map TaskStatus_String TaskStatusValues =
     [''Undefined'', ''Wait'', ''Process'', ''Success'', ''Fail'', ''RepeatWait'', ''Cancel'']"
  by (simp add: TaskStatus_String_def TaskStatusValues_def TaskStatusIndex_def TaskStatusName_def)

lemma PullWorker_None: "fst (PullWorker st m) = None \<Longrightarrow> snd (PullWorker st m) = m"
  by (simp add: PullWorker_def split: option.splits)

lemma PullTask_None: "fst (PullTask st now m) = None \<Longrightarrow> snd (PullTask st now m) = m"
  by (simp add: PullTask_def split: option.splits)

lemma doExecuteTasks_loop_launch:
  "pulls now d = (Some w, Some t) \<Longrightarrow>
   doExecuteTasks_loop now d =
     doExecuteTasks_loop now (go_doRunTask w t (AsyncTrigger (EventTaskExecuteStart t w) (pulled now d)))"
  by (subst doExecuteTasks_loop.simps) (simp add: pulls_def pulled_def Let_def)

lemma doExecuteTasks_loop_return:
  "pulls now d = (Some w, None) \<Longrightarrow> doExecuteTasks_loop now d = fst (pushWorker w (pulled now d))"
  "pulls now d = (None, Some t) \<Longrightarrow> doExecuteTasks_loop now d = fst (pushTask t (pulled now d))"
  "pulls now d = (None, None) \<Longrightarrow> doExecuteTasks_loop now d = pulled now d"
  by (subst doExecuteTasks_loop.simps, simp add: pulls_def pulled_def Let_def)+

lemma doExecuteTasks_loop_induct [consumes 0, case_names launch return]:
  assumes "\<And>now d w t. pulls now d = (Some w, Some t) \<Longrightarrow>
      P now (go_doRunTask w t (AsyncTrigger (EventTaskExecuteStart t w) (pulled now d))) \<Longrightarrow> P now d"
    and "\<And>now d. fst (pulls now d) = None \<or> snd (pulls now d) = None \<Longrightarrow> P now d"
  shows "P now d"
proof (induction now d rule: doExecuteTasks_loop.induct)
  case (1 now d)
  show ?case
  proof (cases "fst (pulls now d) = None \<or> snd (pulls now d) = None")
    case True
    then show ?thesis by (rule assms(2))
  next
    case False
    then obtain w t where p: "pulls now d = (Some w, Some t)"
      by (cases "pulls now d") auto
    then have w: "fst (PullWorker (wstore d) (workers d)) = Some w"
      and t: "fst (PullTask (tstore d) now (tasks d)) = Some t"
      by (simp_all add: pulls_def)
    from "1.IH" [OF refl refl refl w t] show ?thesis
      by (intro assms(1) [OF p]) (simp add: pulled_def)
  qed
qed

lemma pulled_None:
  "fst (pulls now d) = None \<Longrightarrow> workers (pulled now d) = workers d"
  "snd (pulls now d) = None \<Longrightarrow> tasks (pulled now d) = tasks d"
  by (simp_all add: pulls_def pulled_def PullWorker_None PullTask_None)

lemma pulled_fields [simp]:
  "tstore (pulled now d) = tstore d" "wstore (pulled now d) = wstore d"
  "status (pulled now d) = status d" "events (pulled now d) = events d"
  "executions (pulled now d) = executions d" "results (pulled now d) = results d"
  "senders (pulled now d) = senders d"
  "run_notify (pulled now d) = run_notify d"
  "collector (pulled now d) = collector d"
  "dispatching (pulled now d) = dispatching d"
  "ctx (pulled now d) = ctx d" "allowExecuteTasks (pulled now d) = allowExecuteTasks d"
  "tnext (pulled now d) = tnext d" "wnext (pulled now d) = wnext d"
  "workers (pulled now d) = snd (PullWorker (wstore d) (workers d))"
  "tasks (pulled now d) = snd (PullTask (tstore d) now (tasks d))"
  by (simp_all add: pulled_def)

lemma doExecuteTasks_loop_exit:
  "fst (pulls now (doExecuteTasks_loop now d)) = None \<or> snd (pulls now (doExecuteTasks_loop now d)) = None"
proof (induction now d rule: doExecuteTasks_loop_induct)
  case (launch now d w t)
  then show ?case by (simp add: doExecuteTasks_loop_launch)
next
  case (return now d)
  then show ?case
  proof (cases "pulls now d")
    case (Pair pw pt)
    with return show ?thesis
      by (cases pw; cases pt)
         (auto simp: doExecuteTasks_loop_return pulls_def PullWorker_None PullTask_None)
  qed
qed


lemma fold_setStatusTask:
  "t_status (tstore (fold (\<lambda>t. setStatusTask t s) ts d) a) =
     (if a \<in> set ts then s else t_status (tstore d a))"
  "status (fold (\<lambda>t. setStatusTask t s) ts d) = status d"
  "wstore (fold (\<lambda>t. setStatusTask t s) ts d) = wstore d"
  "tasks (fold (\<lambda>t. setStatusTask t s) ts d) = tasks d"
  "workers (fold (\<lambda>t. setStatusTask t s) ts d) = workers d"
  by (induction ts arbitrary: d) auto

lemma fold_setStatusWorker:
  "w_status (wstore (fold (\<lambda>w. setStatusWorker w s) ws d) a) =
     (if a \<in> set ws then s else w_status (wstore d a))"
  "status (fold (\<lambda>w. setStatusWorker w s) ws d) = status d"
  "tstore (fold (\<lambda>w. setStatusWorker w s) ws d) = tstore d"
  "tasks (fold (\<lambda>w. setStatusWorker w s) ws d) = tasks d"
  "workers (fold (\<lambda>w. setStatusWorker w s) ws d) = workers d"
  by (induction ws arbitrary: d) auto

text \<open>The definitions a concrete run is evaluated with.\<close>

lemmas eval_defs = doExecuteTasks_loop.simps AddTask_def AddWorker_def Run_start_def NewSimpleDispatcher_def
  NewSimpleDispatcherWithContext_def pushTask_def pushWorker_def Push_def
  notifyAllowExecuteTasks_def notifyAllowExecuteTasks_check_def notifyAllowExecuteTasks_send_def
  senders_send_def Run_notify_def chan_send_def allowExecuteTasks_cap_def doResultCollector_notify_def
  doResultCollector_return_def doDispatch_return_def doRunTask_select_def doRunTask_send_def
  NewTasksManagerItem_def NewWorkersManagerItem_def NewManager_def
  task_id_def worker_id_def AsyncTrigger_def IsStatus_def setStatusDispatcher_def
  doDispatch_signal_def doDispatch_tick_def doExecuteTasks_def PullWorker_def PullTask_def
  eligible_def go_doRunTask_def doRunTask_begin_def doRunTask_prologue_def doRunTask_mark_def doRunTask_stamp_def update_task_def
  update_worker_def setStatusTask_def setStatusWorker_def doRunTask_function_def
  results_send_def doResultCollector_def collect_worker_def collect_task_def log_Printf_def
  Remove_def ctx_finish_def TaskStatus_defs Let_def RemoveWorker_def RemoveTask_def GetById_def
  item_Cancel_def Cancel_def ctx_Done_def Run_shutdown_def GetAll_def wg_Wait_def Run_return_def
  deadline_def Add_def word_sless_alt word_sle_eq task_view_def worker_view_def
  WorkerStatusCancel_Int64_def task_once_def task_thrice_def task_timeout_def task_forever_def worker_one_def
  stamp_view_def dispatches_def marked_def last_event_def
  run_begun_def results_view_def


section \<open>The invariants are kept\<close>









lemma same_core_refl [simp]: "same_core d d"
  by (simp add: same_core_def)


lemma tk_record [simp]:
  "tk (tasks_update f1 d) = tk d" "tk (workers_update f2 d) = tk d"
  "tk (events_update f3 d) = tk d" "tk (allowExecuteTasks_update f4 d) = tk d"
  "tk (status_update f5 d) = tk d" "tk (executions_update f6 d) = tk d"
  "tk (ctx_update f7 d) = tk d" "tk (results_update f8 d) = tk d"
  "tk (logged_update f9 d) = tk d" "tk (wstore_update f10 d) = tk d"
  "tk (wnext_update f11 d) = tk d" "tk (tnext_update f12 d) = tk d"
  "tk (senders_update f13 d) = tk d" "tk (run_notify_update f14 d) = tk d"
  "tk (collector_update f15 d) = tk d" "tk (dispatching_update f16 d) = tk d"
  by (simp_all add: tk_def fun_eq_iff)

lemma xk_record [simp]:
  "xk (tasks_update f1 d) = xk d" "xk (workers_update f2 d) = xk d"
  "xk (events_update f3 d) = xk d" "xk (allowExecuteTasks_update f4 d) = xk d"
  "xk (status_update f5 d) = xk d" "xk (tstore_update f6 d) = xk d"
  "xk (ctx_update f7 d) = xk d" "xk (results_update f8 d) = xk d"
  "xk (logged_update f9 d) = xk d" "xk (wstore_update f10 d) = xk d"
  "xk (wnext_update f11 d) = xk d" "xk (tnext_update f12 d) = xk d"
  "xk (senders_update f13 d) = xk d" "xk (run_notify_update f14 d) = xk d"
  "xk (collector_update f15 d) = xk d" "xk (dispatching_update f16 d) = xk d"
  by (simp_all add: xk_def)

lemma qk_record [simp]:
  "qk (tstore_update f1 d) = qk d" "qk (workers_update f2 d) = qk d"
  "qk (events_update f3 d) = qk d" "qk (allowExecuteTasks_update f4 d) = qk d"
  "qk (status_update f5 d) = qk d" "qk (executions_update f6 d) = qk d"
  "qk (ctx_update f7 d) = qk d" "qk (results_update f8 d) = qk d"
  "qk (logged_update f9 d) = qk d" "qk (wstore_update f10 d) = qk d"
  "qk (wnext_update f11 d) = qk d" "qk (tnext_update f12 d) = qk d"
  "qk (senders_update f13 d) = qk d" "qk (run_notify_update f14 d) = qk d"
  "qk (collector_update f15 d) = qk d" "qk (dispatching_update f16 d) = qk d"
  by (simp_all add: qk_def)

lemma tk_keeps [simp]:
  "tk (AsyncTrigger e d) = tk d" "tk (update_worker b g d) = tk d"
  "tk (setStatusWorker b ws d) = tk d" "tk (setStatusDispatcher ds d) = tk d"
  "tk (setStatusTask a s d) = tk d"
  "tk (update_task a (t_cancel_update fc) d) = tk d"
  "tk (update_task a (t_allowStartAt_update fa) d) = tk d"
  "tk (update_task a (t_lastStartedAt_update fl) d) = tk d"
  "tk (log_Printf m p) = tk (fst p)" "tk (fst (pushWorker b d)) = tk d"
  "tk (fst (pushTask a d)) = tk d" "tk (collect_worker r d) = tk d"
  "tk (results_send n r d) = tk d" "tk (pulled now d) = tk d"
  "tk (doRunTask_select n br d) = tk d" "tk (notifyAllowExecuteTasks d) = tk d"
  by (auto simp: tk_def task_core_def fun_eq_iff notifyAllowExecuteTasks_def)

lemma xk_keeps [simp]:
  "xk (AsyncTrigger e d) = xk d" "xk (update_worker b g d) = xk d"
  "xk (setStatusWorker b ws d) = xk d" "xk (setStatusDispatcher ds d) = xk d"
  "xk (setStatusTask a s d) = xk d" "xk (update_task a f d) = xk d"
  "xk (log_Printf m p) = xk (fst p)" "xk (fst (pushWorker b d)) = xk d"
  "xk (fst (pushTask a d)) = xk d" "xk (collect_worker r d) = xk d"
  "xk (collect_task now r d) = xk d" "xk (pulled now d) = xk d"
  "xk (notifyAllowExecuteTasks d) = xk d"
  by (auto simp: xk_def notifyAllowExecuteTasks_def)

lemma qk_keeps [simp]:
  "qk (AsyncTrigger e d) = qk d" "qk (update_worker b g d) = qk d"
  "qk (setStatusWorker b ws d) = qk d" "qk (setStatusDispatcher ds d) = qk d"
  "qk (setStatusTask a s d) = qk d" "qk (update_task a f d) = qk d"
  "qk (log_Printf m p) = qk (fst p)" "qk (fst (pushWorker b d)) = qk d"
  "qk (collect_worker r d) = qk d" "qk (results_send n r d) = qk d"
  "qk (doRunTask_select n br d) = qk d" "qk (notifyAllowExecuteTasks d) = qk d"
  by (auto simp: qk_def notifyAllowExecuteTasks_def)

lemma tnext_notify [simp]: "tnext (notifyAllowExecuteTasks d) = tnext d"
  by (simp add: notifyAllowExecuteTasks_def)

lemma Push_queue:
  "m_queue (fst (Push ident a m)) = m_queue m \<or>
   (m_queue (fst (Push ident a m)) = m_queue m @ [a] \<and> a \<notin> set (m_queue m))"
  by (simp add: Push_def)

lemma collect_task_core:
  "tk (collect_task now r d) = tk d \<and> tnext (collect_task now r d) = tnext d \<and>
   (qk (collect_task now r d) = qk d \<or>
    qk (collect_task now r d) = removeAll (taskItem r) (qk d) \<or>
    (qk (collect_task now r d) = qk d @ [taskItem r] \<and> taskItem r \<notin> set (qk d) \<and>
     may_run (tk d (taskItem r))))"
proof (cases "\<not> cancel r \<and> \<not> t_status (tstore d (taskItem r)) = TaskStatusCancel")
  case False
  then show ?thesis by (auto simp: collect_task_def)
next
  case True
  let ?d1 = "if err r \<noteq> None then setStatusTask (taskItem r) TaskStatusFail d
             else setStatusTask (taskItem r) TaskStatusSuccess d"
  show ?thesis
  proof (cases "Repeats (t_task (tstore d (taskItem r))) <s 0 \<or>
      t_attempts (tstore d (taskItem r)) <s Repeats (t_task (tstore d (taskItem r)))")
    case False
    with True show ?thesis
      by (auto simp: collect_task_def Let_def qk_def Remove_def)
  next
    case again: True
    then have m: "may_run (tk d (taskItem r))"
      by (auto simp: may_run_def tk_def task_core_def)
    let ?d3 = "setStatusTask (taskItem r) TaskStatusRepeatWait
      (if 0 <s RepeatInterval (t_task (tstore ?d1 (taskItem r)))
       then update_task (taskItem r)
          (\<lambda>t. t\<lparr>t_allowStartAt := Some (Add now (RepeatInterval (t_task (tstore ?d1 (taskItem r)))))\<rparr>) ?d1
       else ?d1)"
    have e: "collect_task now r d = log_Printf ''Push task failed with error: '' (pushTask (taskItem r) ?d3)"
      using True again by (auto simp: collect_task_def Let_def)
    have q3: "qk ?d3 = qk d" and t3: "tk ?d3 = tk d" and n3: "tnext ?d3 = tnext d"
      by simp_all
    from Push_queue [of "task_id ?d3" "taskItem r" "tasks ?d3"] q3
    have "qk (fst (pushTask (taskItem r) ?d3)) = qk d \<or>
      (qk (fst (pushTask (taskItem r) ?d3)) = qk d @ [taskItem r] \<and> taskItem r \<notin> set (qk d))"
      by (simp add: qk_def)
    then show ?thesis
      using m t3 n3 unfolding e by (auto split: if_splits)
  qed
qed

lemma core_eqI:
  "tstore d' = tstore d \<Longrightarrow> tk d' = tk d"
  "tasks d' = tasks d \<Longrightarrow> qk d' = qk d"
  "executions d' = executions d \<Longrightarrow> xk d' = xk d"
  by (simp_all add: tk_def qk_def xk_def fun_eq_iff)

lemma doResultCollector_core:
  "tk (doResultCollector now r d) = tk d \<and> tnext (doResultCollector now r d) = tnext d \<and>
   xk (doResultCollector now r d) = xk d \<and>
   (qk (doResultCollector now r d) = qk d \<or>
    qk (doResultCollector now r d) = removeAll (taskItem r) (qk d) \<or>
    (qk (doResultCollector now r d) = qk d @ [taskItem r] \<and> taskItem r \<notin> set (qk d) \<and>
     may_run (tk d (taskItem r))))"
proof (cases "IsStatus d DispatcherStatusCancel")
  case True
  then show ?thesis
    by (simp add: doResultCollector_def Let_def IsStatus_def)
next
  case False
  let ?d0 = "collect_worker r
     (update_worker (workerItem r) (\<lambda>w. w\<lparr>w_task := None\<rparr>)
        (update_worker (workerItem r) (\<lambda>w. w\<lparr>w_cancel := None\<rparr>)
           (update_task (taskItem r) (\<lambda>t. t\<lparr>t_cancel := None\<rparr>) d)))"
  let ?d' = "doResultCollector now r d"
  have f: "tstore ?d' = tstore (collect_task now r ?d0)" "tasks ?d' = tasks (collect_task now r ?d0)"
    using doResultCollector_collected(1,2) [OF False, of now r] unfolding collected_def by simp_all
  have c: "tk ?d' = tk (collect_task now r ?d0)" "qk ?d' = qk (collect_task now r ?d0)"
    by (rule core_eqI, rule f)+
  have x: "xk ?d' = xk d"
    by (rule core_eqI) simp
  have z: "tk ?d0 = tk d" "qk ?d0 = qk d" "tnext ?d0 = tnext d"
    by simp_all
  show ?thesis
    using collect_task_core [of now r ?d0]
    by (simp add: c x z)
qed



lemma xk_nth: "n < length (executions d) \<Longrightarrow> xk d ! n = exec_core (executions d ! n)"
  by (simp add: xk_def)

lemma xk_update:
  "xk (d\<lparr>executions := (executions d)[n := y]\<rparr>) = (xk d)[n := exec_core y]"
  by (simp add: xk_def map_update)

lemma xk_results_send [simp]:
  "xk (results_send n r d) =
     (xk d)[n := exec_core ((executions d ! n)\<lparr>x_sent := True\<rparr>)]"
  by (simp add: xk_def map_update exec_core_def)




lemma exec_core_keeps [simp]:
  "exec_core (x\<lparr>x_ctx := c\<rparr>) = exec_core x"
  "exec_core (x\<lparr>x_deadline := b\<rparr>) = exec_core x"
  by (simp_all add: exec_core_def)

lemma map_update_same [simp]: "n < length xs \<Longrightarrow> (map f xs)[n := f (xs ! n)] = map f xs"
  by (simp add: list_eq_iff_nth_eq nth_list_update)

lemma item_Cancel_core [simp]:
  "tk (item_Cancel h d) = tk d" "qk (item_Cancel h d) = qk d" "xk (item_Cancel h d) = xk d"
  "tnext (item_Cancel h d) = tnext d" "tasks (item_Cancel h d) = tasks d"
  "tstore (item_Cancel h d) = tstore d"
  by (auto simp: item_Cancel_def xk_def map_update split: option.splits)

lemma map_exec_core_ctx:
  "map exec_core (map (\<lambda>x. if x_begun x then x\<lparr>x_ctx := f x\<rparr> else x) xs) = map exec_core xs"
  by (induction xs) auto

lemma ctx_Done_core [simp]:
  "tk (ctx_Done e d) = tk d" "qk (ctx_Done e d) = qk d" "xk (ctx_Done e d) = xk d"
  "tnext (ctx_Done e d) = tnext d"
  by (auto simp: ctx_Done_def xk_def map_exec_core_ctx split: option.splits)

lemma deadline_core [simp]:
  "tk (deadline n d) = tk d" "qk (deadline n d) = qk d" "xk (deadline n d) = xk d"
  "tnext (deadline n d) = tnext d"
  by (auto simp: deadline_def xk_def map_update Let_def)

lemma fold_setStatusTask_core [simp]:
  "tk (fold (\<lambda>t. setStatusTask t s) ts d) = tk d" "qk (fold (\<lambda>t. setStatusTask t s) ts d) = qk d"
  "xk (fold (\<lambda>t. setStatusTask t s) ts d) = xk d" "tnext (fold (\<lambda>t. setStatusTask t s) ts d) = tnext d"
  by (induction ts arbitrary: d) auto

lemma fold_setStatusWorker_core [simp]:
  "tk (fold (\<lambda>w. setStatusWorker w s) ws d) = tk d" "qk (fold (\<lambda>w. setStatusWorker w s) ws d) = qk d"
  "xk (fold (\<lambda>w. setStatusWorker w s) ws d) = xk d" "tnext (fold (\<lambda>w. setStatusWorker w s) ws d) = tnext d"
  by (induction ws arbitrary: d) auto

lemma Run_shutdown_core: "same_core d (Run_shutdown wsc d)"
  by (simp add: same_core_def Run_shutdown_def Let_def)

lemma Run_return_core: "same_core d (fst (Run_return d))"
  by (simp add: same_core_def Run_return_def)

lemma Run_start_core: "Run_start d = Inr d' \<Longrightarrow> same_core d d'"
  by (auto simp: Run_start_def same_core_def Let_def split: if_splits)

lemma Run_notify_core: "Run_notify d = Some d' \<Longrightarrow> same_core d d'"
  by (auto simp: Run_notify_def notifyAllowExecuteTasks_send_def same_core_def
      split: if_splits option.splits)

lemma senders_send_core: "senders_send d = Some d' \<Longrightarrow> same_core d d'"
  by (auto simp: senders_send_def notifyAllowExecuteTasks_send_def same_core_def
      split: if_splits option.splits)

lemma doResultCollector_notify_core: "doResultCollector_notify d = Some d' \<Longrightarrow> same_core d d'"
  by (auto simp: doResultCollector_notify_def notifyAllowExecuteTasks_send_def same_core_def
      split: if_splits option.splits)

lemma doResultCollector_return_core: "same_core d (doResultCollector_return d)"
  by (simp add: doResultCollector_return_def same_core_def)

lemma doDispatch_return_core: "same_core d (doDispatch_return d)"
  by (simp add: doDispatch_return_def same_core_def)

lemma Cancel_core: "same_core d (fst (Cancel d))"
  by (simp add: same_core_def Cancel_def Let_def)

lemma AddWorker_core: "same_core d (fst (AddWorker worker now d))"
  by (auto simp: AddWorker_def Let_def same_core_def pushWorker_def
      split: prod.splits option.splits)

lemma RemoveWorker_core: "same_core d (RemoveWorker worker d)"
  by (auto simp: RemoveWorker_def Let_def same_core_def split: option.splits)

lemma RemoveTask_core:
  "tk (RemoveTask task d) = tk d \<and> xk (RemoveTask task d) = xk d \<and>
   tnext (RemoveTask task d) = tnext d \<and>
   (qk (RemoveTask task d) = qk d \<or> (\<exists>a. qk (RemoveTask task d) = removeAll a (qk d)))"
  by (auto simp: RemoveTask_def Let_def qk_def Remove_def split: option.splits)


lemma doRunTask_function_core:
  "tk (doRunTask_function n out d) = tk d \<and> qk (doRunTask_function n out d) = qk d \<and>
   tnext (doRunTask_function n out d) = tnext d \<and>
   (xk (doRunTask_function n out d) = xk d \<or>
    (n < length (xk d) \<and>
     xk (doRunTask_function n out d) =
       (xk d)[n := XC (xc_task (xk d ! n)) (xc_begun (xk d ! n)) (xc_sent (xk d ! n))
                      (Some (xc_task (xk d ! n))) (xc_envelope (xk d ! n))]))"
  by (cases out) (auto simp: doRunTask_function_def Let_def xk_def map_update exec_core_def)




lemma doRunTask_prologue_core [simp]:
  "qk (doRunTask_prologue now n wi ti d) = qk d" "xk (doRunTask_prologue now n wi ti d) = xk d"
  "tnext (doRunTask_prologue now n wi ti d) = tnext d"
  "executions (doRunTask_prologue now n wi ti d) = executions d"
  "tk (doRunTask_prologue now n wi ti d) = (tk d)(ti := dispatched (tk d ti))"
  by (auto simp: doRunTask_prologue_def doRunTask_mark_def doRunTask_stamp_def Let_def tk_def
      task_core_def fun_eq_iff dispatched_def)

lemma doRunTask_begin_core:
  "qk (doRunTask_begin now n d) = qk d \<and> tnext (doRunTask_begin now n d) = tnext d \<and>
   ((tk (doRunTask_begin now n d) = tk d \<and> xk (doRunTask_begin now n d) = xk d) \<or>
    (n < length (xk d) \<and> \<not> xc_begun (xk d ! n) \<and>
     tk (doRunTask_begin now n d) =
       (tk d)(xc_task (xk d ! n) := dispatched (tk d (xc_task (xk d ! n)))) \<and>
     xk (doRunTask_begin now n d) =
       (xk d)[n := XC (xc_task (xk d ! n)) True (xc_sent (xk d ! n)) (xc_done (xk d ! n))
                      (xc_envelope (xk d ! n))]))"
  by (auto simp: doRunTask_begin_def Let_def xk_def map_update exec_core_def)


lemma AddTask_core:
  "xk (fst (AddTask task d)) = xk d \<and> tnext (fst (AddTask task d)) = Suc (tnext d) \<and>
   tk (fst (AddTask task d)) = (tk d)(tnext d := (0, Repeats task, True)) \<and>
   (qk (fst (AddTask task d)) = qk d \<or>
    (qk (fst (AddTask task d)) = qk d @ [tnext d] \<and> tnext d \<notin> set (qk d)))"
proof -
  let ?d1 = "d\<lparr>tstore := (tstore d)(tnext d := NewTasksManagerItem task TaskStatusWait),
               tnext := Suc (tnext d)\<rparr>"
  have t1: "tk ?d1 = (tk d)(tnext d := (0, Repeats task, True))"
    by (auto simp: tk_def task_core_def NewTasksManagerItem_def fun_eq_iff)
  have p: "qk (fst (pushTask (tnext d) ?d1)) = qk d \<or>
      (qk (fst (pushTask (tnext d) ?d1)) = qk d @ [tnext d] \<and> tnext d \<notin> set (qk d))"
    using Push_queue [of "task_id ?d1" "tnext d" "tasks d"] by (simp add: qk_def)
  obtain d2 e where pe: "pushTask (tnext d) ?d1 = (d2, e)" by (cases "pushTask (tnext d) ?d1")
  then have d2: "d2 = fst (pushTask (tnext d) ?d1)" by simp
  have c2: "tk d2 = tk ?d1" "xk d2 = xk d" "tnext d2 = Suc (tnext d)"
    unfolding d2 by simp_all
  show ?thesis
    using p c2 t1 unfolding d2 [symmetric]
    by (cases e) (auto simp: AddTask_def Let_def pe)
qed



lemma go_doRunTask_core [simp]:
  "tk (go_doRunTask w t d) = tk d" "qk (go_doRunTask w t d) = qk d"
  "tnext (go_doRunTask w t d) = tnext d"
  "xk (go_doRunTask w t d) = xk d @ [XC t False False None None]"
  by (simp_all add: go_doRunTask_def xk_def exec_core_def)



lemma doExecuteTasks_loop_tk: "tk (doExecuteTasks_loop now d) = tk d"
proof (induction now d rule: doExecuteTasks_loop_induct)
  case (launch now d w t)
  then show ?case
    by (simp add: doExecuteTasks_loop_launch)
next
  case (return now d)
  obtain pw pt where p: "pulls now d = (pw, pt)" by (cases "pulls now d")
  with return show ?case
    by (cases pw; cases pt)
       (simp_all add: doExecuteTasks_loop_return)
qed





lemma begun_count_simps [simp]:
  "begun_count a [] = 0"
  "begun_count a (x # xs) = (if xc_task x = a \<and> xc_begun x then 1 else 0) + begun_count a xs"
  "begun_count a (xs @ ys) = begun_count a xs + begun_count a ys"
  by (simp_all add: begun_count_def)

lemma begun_count_update:
  assumes "n < length xs" and "xc_task y = xc_task (xs ! n)" and "xc_begun y = xc_begun (xs ! n)"
  shows "begun_count a (xs[n := y]) = begun_count a xs"
  using assms
proof (induction xs arbitrary: n)
  case Nil
  then show ?case by simp
next
  case (Cons x xs)
  then show ?case by (cases n) auto
qed

lemma begun_count_begin:
  assumes "n < length xs" and "xc_task y = xc_task (xs ! n)" and "\<not> xc_begun (xs ! n)" and "xc_begun y"
  shows "begun_count a (xs[n := y]) = begun_count a xs + (if a = xc_task (xs ! n) then 1 else 0)"
  using assms
proof (induction xs arbitrary: n)
  case Nil
  then show ?case by simp
next
  case (Cons x xs)
  then show ?case by (cases n) auto
qed

lemma length_xk [simp]: "length (xk d) = length (executions d)"
  by (simp add: xk_def)


lemma same_core_kept: "same_core d d' \<Longrightarrow> kept d d'"
  by (simp add: same_core_def kept_def)

lemma kept_refl [simp]: "kept d d"
  by (simp add: kept_def)

lemma doExecuteTasks_loop_begun: "begun_count a (xk (doExecuteTasks_loop now d)) = begun_count a (xk d)"
proof (induction now d rule: doExecuteTasks_loop_induct)
  case (launch now d w t)
  then show ?case
    by (simp add: doExecuteTasks_loop_launch)
next
  case (return now d)
  obtain pw pt where p: "pulls now d = (pw, pt)" by (cases "pulls now d")
  with return show ?case
    by (cases pw; cases pt)
       (simp_all add: doExecuteTasks_loop_return)
qed

lemma doExecuteTasks_kept: "kept d (doExecuteTasks now d)"
  using doExecuteTasks_loop_begun [of _ now d] doExecuteTasks_loop_tk [of now d]
  by (simp add: kept_def doExecuteTasks_def)

lemma doRunTask_function_kept: "kept d (doRunTask_function n out d)"
  using doRunTask_function_core [of n out d]
  by (auto simp: kept_def begun_count_update)

lemma doRunTask_select_kept: "kept d (doRunTask_select n b d)"
  by (auto simp: kept_def doRunTask_select_def xk_update xk_nth exec_core_def
      intro!: begun_count_update split: option.splits)

lemma results_send_begun:
  assumes "n < length (executions d)"
  shows "begun_count a ((xk d)[n := exec_core ((executions d ! n)\<lparr>x_sent := True\<rparr>)]) =
           begun_count a (xk d)"
  using assms by (intro begun_count_update) (simp_all add: xk_nth exec_core_def)

lemma doRunTask_send_kept: "doRunTask_send now n d = Some d' \<Longrightarrow> kept d d'"
  using doResultCollector_core [of now _ "results_send n _ d"]
  by (auto simp: doRunTask_send_def kept_def results_send_begun split: if_splits option.splits)

lemma doRunTask_begin_begins: "kept d (doRunTask_begin now n d) \<or> begins n d (doRunTask_begin now n d)"
  using doRunTask_begin_core [of now n d]
  by (auto simp: kept_def begins_def begun_count_begin)

lemma step_core:
  assumes "step wsc act d = Some d'"
  shows "kept d d' \<or> (\<exists>n. begins n d d') \<or> (\<exists>r. allocates r d d')"
proof (cases act)
  case (Act_AddWorker worker now)
  then show ?thesis using assms AddWorker_core [of d worker now] by (auto intro: same_core_kept)
next
  case (Act_RemoveWorker worker)
  then show ?thesis using assms RemoveWorker_core [of d worker] by (auto intro: same_core_kept)
next
  case (Act_AddTask task)
  then show ?thesis using assms AddTask_core [of task d] by (auto simp: allocates_def)
next
  case (Act_RemoveTask task)
  then show ?thesis using assms RemoveTask_core [of task d] by (auto simp: kept_def)
next
  case Act_Run
  then show ?thesis using assms Run_start_core [of d]
    by (cases "Run_start d") (auto intro: same_core_kept)
next
  case Act_Run_notify
  then show ?thesis using assms Run_notify_core [of d d'] by (auto intro: same_core_kept)
next
  case Act_Run_shutdown
  then show ?thesis using assms Run_shutdown_core [of d wsc]
    by (auto intro: same_core_kept split: if_splits)
next
  case Act_Run_return
  then show ?thesis using assms Run_return_core [of d]
    by (auto intro: same_core_kept split: if_splits)
next
  case Act_Cancel
  then show ?thesis using assms Cancel_core [of d] by (auto intro: same_core_kept)
next
  case (Act_parent_Done timed_out)
  then show ?thesis using assms by (auto simp: kept_def)
next
  case Act_notify_send
  then show ?thesis using assms senders_send_core [of d d'] by (auto intro: same_core_kept)
next
  case (Act_signal now)
  then show ?thesis using assms doExecuteTasks_kept [of "d\<lparr>allowExecuteTasks := allowExecuteTasks d - 1\<rparr>" now]
    by (auto simp: doDispatch_signal_def kept_def split: if_splits)
next
  case (Act_tick now)
  then show ?thesis using assms doExecuteTasks_kept [of d now]
    by (auto simp: doDispatch_tick_def split: if_splits)
next
  case Act_dispatch_return
  then show ?thesis using assms doDispatch_return_core [of d] by (auto intro: same_core_kept)
next
  case (Act_begin n now)
  then show ?thesis using assms doRunTask_begin_begins [of d now n] by auto
next
  case (Act_function n out)
  then show ?thesis using assms doRunTask_function_kept [of d n out] by auto
next
  case (Act_deadline n)
  then show ?thesis using assms by (auto simp: kept_def)
next
  case (Act_select n b)
  then show ?thesis using assms doRunTask_select_kept [of d n b] by auto
next
  case (Act_send n now)
  then show ?thesis using assms doRunTask_send_kept [of now n d d'] by auto
next
  case Act_collector_notify
  then show ?thesis using assms doResultCollector_notify_core [of d d'] by (auto intro: same_core_kept)
next
  case Act_collector_return
  then show ?thesis using assms doResultCollector_return_core [of d] by (auto intro: same_core_kept)
qed

lemma unat_incr:
  assumes "unat (a :: 64 word) < 2 ^ 64 - 1"
  shows "unat (a + 1) = Suc (unat a)" and "a + 1 \<noteq> 0"
proof -
  show u: "unat (a + 1) = Suc (unat a)"
    using assms by (simp add: unat_word_ariths)
  show "a + 1 \<noteq> 0"
    using u by (metis Zero_not_Suc unat_0)
qed

lemma stamped_dispatched:
  assumes "stamped k x" and "k < 2 ^ 64 - 1"
  shows "stamped (Suc k) (dispatched x)"
proof -
  obtain a r u where x: "x = (a, r, u)" by (cases x)
  have s: "(a = 0) = u" "unat a \<le> k"
    using assms(1) by (simp_all add: x stamped_def)
  have "unat a < 2 ^ 64 - 1" using s(2) assms(2) by simp
  note i = unat_incr [OF this]
  have "a + 1 = 1 \<longleftrightarrow> a = 0" by auto
  then show ?thesis
    using s i by (auto simp: x stamped_def dispatched_def)
qed

lemma stamped_mono: "stamped k x \<Longrightarrow> k \<le> k' \<Longrightarrow> stamped k' x"
  by (auto simp: stamped_def)

lemma Stamp_step:
  assumes "Stamp k d" and "k < 2 ^ 64 - 1" and "step wsc act d = Some d'"
  shows "Stamp (Suc k) d'"
proof -
  from step_core [OF assms(3)]
  consider "kept d d'" | n where "begins n d d'" | r where "allocates r d d'" by blast
  then show ?thesis
  proof cases
    case 1
    then show ?thesis
      using assms(1) by (auto simp: Stamp_def kept_def intro: stamped_mono)
  next
    case 2
    then show ?thesis
      using assms(1,2) by (auto simp: Stamp_def begins_def intro: stamped_mono stamped_dispatched)
  next
    case 3
    have "stamped (Suc k) (tk d' a)" for a
    proof (cases "a = tnext d")
      case True
      then show ?thesis using 3 by (simp add: allocates_def stamped_def)
    next
      case False
      then have "tk d' a = tk d a" using 3 by (simp add: allocates_def)
      then show ?thesis
        using assms(1) stamped_mono [of k "tk d a" "Suc k"] by (simp add: Stamp_def)
    qed
    then show ?thesis by (simp add: Stamp_def)
  qed
qed

lemma Stamp_steps:
  "Stamp k d \<Longrightarrow> k + length as < 2 ^ 64 \<Longrightarrow> steps wsc as d = Some d' \<Longrightarrow> Stamp (k + length as) d'"
proof (induction as arbitrary: k d)
  case Nil
  then show ?case by simp
next
  case (Cons a as)
  from Cons.prems(3) obtain d1 where s: "step wsc a d = Some d1" and r: "steps wsc as d1 = Some d'"
    by (auto split: option.splits)
  have "Stamp (Suc k) d1"
    using Cons.prems(1,2) by (intro Stamp_step [OF _ _ s]) simp_all
  from Cons.IH [OF this _ r] Cons.prems(2) show ?case by simp
qed

lemma Stamp_New: "Stamp 0 (NewSimpleDispatcherWithContext parent)"
  by (simp add: Stamp_def stamped_def tk_def task_core_def
      NewSimpleDispatcherWithContext_def NewTasksManagerItem_def)






section \<open>The result collector and the task (C1)\<close>

text \<open>
  C1. For an envelope the collector receives and processes while the dispatcher is not in Cancel, with
  neither the envelope nor the task cancelled: the task's status is set to Fail when the
  envelope carries an error and to Success otherwise. Then, when repeats is negative or
  attempts is below repeats, \<^verbatim>\<open>allow_start_at\<close> becomes now plus the repeat interval if
  that is positive, the status is set to RepeatWait and the task is pushed to the task
  manager; otherwise the task is removed from it. The status changes are read off the
  \<^verbatim>\<open>EventTaskStatusChanged\<close> events the round triggers.
\<close>

theorem doResultCollector_task:
  fixes now :: instant
  assumes "\<not> IsStatus d DispatcherStatusCancel" and "\<not> cancel r"
    and "t_status (tstore d (taskItem r)) \<noteq> TaskStatusCancel"
  defines "d' \<equiv> doResultCollector now r d"
  shows
    "(if Repeats (t_task (tstore d (taskItem r))) <s 0 \<or>
        t_attempts (tstore d (taskItem r)) <s Repeats (t_task (tstore d (taskItem r)))
     then task_status_changes (taskItem r) (events d') =
            task_status_changes (taskItem r) (events d) @
              [(if err r \<noteq> None then TaskStatusFail else TaskStatusSuccess,
                t_status (tstore d (taskItem r))),
               (TaskStatusRepeatWait, if err r \<noteq> None then TaskStatusFail else TaskStatusSuccess)]
        \<and> t_status (tstore d' (taskItem r)) = TaskStatusRepeatWait
        \<and> t_allowStartAt (tstore d' (taskItem r)) =
            (if 0 <s RepeatInterval (t_task (tstore d (taskItem r)))
             then Some (Add now (RepeatInterval (t_task (tstore d (taskItem r)))))
             else t_allowStartAt (tstore d (taskItem r)))
        \<and> tasks d' = fst (Push (task_id d) (taskItem r) (tasks d))
     else task_status_changes (taskItem r) (events d') =
            task_status_changes (taskItem r) (events d) @
              [(if err r \<noteq> None then TaskStatusFail else TaskStatusSuccess,
                t_status (tstore d (taskItem r)))]
        \<and> t_status (tstore d' (taskItem r)) =
            (if err r \<noteq> None then TaskStatusFail else TaskStatusSuccess)
        \<and> t_allowStartAt (tstore d' (taskItem r)) = t_allowStartAt (tstore d (taskItem r))
        \<and> tasks d' = Remove (taskItem r) (tasks d))"
proof -
  let ?d0 = "collect_worker r
             (update_worker (workerItem r) (\<lambda>w. w\<lparr>w_task := None\<rparr>)
                (update_worker (workerItem r) (\<lambda>w. w\<lparr>w_cancel := None\<rparr>)
                   (update_task (taskItem r) (\<lambda>t. t\<lparr>t_cancel := None\<rparr>) d)))"
  have flds: "tstore d' = tstore (collect_task now r ?d0)" "tasks d' = tasks (collect_task now r ?d0)"
      "events d' = events (collect_task now r ?d0) @
         [EventTaskExecuteStop (taskItem r) (workerItem r) (result r) (err r)]"
    using doResultCollector_collected [OF assms(1), of now r] unfolding collected_def d'_def
    by simp_all
  have st: "t_status (tstore ?d0 (taskItem r)) \<noteq> TaskStatusCancel"
    using assms(3) by simp
  show ?thesis
  proof (cases "Repeats (t_task (tstore d (taskItem r))) <s 0 \<or>
        t_attempts (tstore d (taskItem r)) <s Repeats (t_task (tstore d (taskItem r)))")
    case True
    then have c: "Repeats (t_task (tstore ?d0 (taskItem r))) <s 0 \<or>
         t_attempts (tstore ?d0 (taskItem r)) <s Repeats (t_task (tstore ?d0 (taskItem r)))"
      by simp
    show ?thesis
      using True collect_task_retry [OF assms(2) st c, of now]
      by (simp add: flds task_status_changes_append)
  next
    case False
    then have c: "\<not> (Repeats (t_task (tstore ?d0 (taskItem r))) <s 0 \<or>
         t_attempts (tstore ?d0 (taskItem r)) <s Repeats (t_task (tstore ?d0 (taskItem r))))"
      by simp
    show ?thesis
      using False collect_task_final [OF assms(2) st c, of now]
      by (simp add: flds task_status_changes_append)
  qed
qed

theorem doResultCollector_task_witness:
  "\<not> IsStatus d_retry DispatcherStatusCancel \<and> \<not> cancel r_failed \<and>
   t_status (tstore d_retry (taskItem r_failed)) \<noteq> TaskStatusCancel \<and>
   task_status_changes 0 (events (doResultCollector 10 r_failed d_retry)) =
     [(TaskStatusFail, TaskStatusProcess), (TaskStatusRepeatWait, TaskStatusFail)] \<and>
   t_status (tstore (doResultCollector 10 r_failed d_retry) 0) = TaskStatusRepeatWait \<and>
   t_allowStartAt (tstore (doResultCollector 10 r_failed d_retry) 0) = Some 15 \<and>
   tasks (doResultCollector 10 r_failed d_retry) = \<lparr>m_items = [0], m_queue = [0]\<rparr>"
  using doResultCollector_task [where d = d_retry and r = r_failed and now = 10]
  by (simp add: d_retry_def r_failed_def eval_defs)

section \<open>The result collector and the worker (C5)\<close>

text \<open>
  C5, as stated: a worker whose status is Cancel is never set to Wait or pushed again.
  It fails when the envelope of its execution is not flagged cancel. The worker is
  removed by \<^verbatim>\<open>RemoveWorker\<close> (status Cancel, out of the manager) after the task
  function has returned and before the \<^verbatim>\<open>select\<close> of \<^verbatim>\<open>doRunTask\<close> takes the
  envelope from \<^verbatim>\<open>done\<close>; the collector then sets the worker to Wait and pushes it back.
\<close>

theorem cancelled_worker_reused_counterexample:
  "map_option (worker_view 0)
     (steps WorkerStatusCancel_Int64
        (run_begun task_once @
         [Act_function 0 (Returned (Some ''ok'') None), Act_RemoveWorker worker_one])
        NewSimpleDispatcher) = Some (WorkerStatusCancel, False, False) \<and>
   map_option (worker_view 0)
     (steps WorkerStatusCancel_Int64
        (run_begun task_once @
         [Act_function 0 (Returned (Some ''ok'') None), Act_RemoveWorker worker_one,
          Act_select 0 case_done, Act_send 0 3])
        NewSimpleDispatcher) = Some (WorkerStatusWait, True, True)"
  by (simp add: eval_defs)

text \<open>
  C5, amended. For an envelope the collector receives and processes while the dispatcher is not in
  Cancel, the worker's current task is cleared. The worker is left alone only when the
  envelope is flagged cancel and the worker's status is Cancel; in every other case, so
  also for a worker in Cancel whose envelope is not flagged, its status is set to Wait
  and it is pushed to the worker manager.
\<close>

theorem doResultCollector_worker:
  fixes now :: instant and r :: SimpleDispatcherResult
  assumes "\<not> IsStatus d DispatcherStatusCancel"
  defines "d' \<equiv> doResultCollector now r d"
  shows
    "w_task (wstore d' (workerItem r)) = None \<and>
    (if cancel r \<and> w_status (wstore d (workerItem r)) = WorkerStatusCancel
     then w_status (wstore d' (workerItem r)) = WorkerStatusCancel
        \<and> workers d' = workers d
        \<and> worker_status_changes (workerItem r) (events d') =
            worker_status_changes (workerItem r) (events d)
     else w_status (wstore d' (workerItem r)) = WorkerStatusWait
        \<and> workers d' = fst (Push (worker_id d) (workerItem r) (workers d))
        \<and> worker_status_changes (workerItem r) (events d') =
            worker_status_changes (workerItem r) (events d) @
              [(WorkerStatusWait, w_status (wstore d (workerItem r)))])"
proof -
  have flds: "wstore d' = wstore (collected now r d)" "workers d' = workers (collected now r d)"
      "events d' = events (collected now r d) @
         [EventTaskExecuteStop (taskItem r) (workerItem r) (result r) (err r)]"
    using doResultCollector_collected [OF assms(1), of now r] unfolding d'_def by simp_all
  show ?thesis
    by (auto simp: flds collected_def collect_worker_def worker_status_changes_append)
qed

theorem doResultCollector_worker_witness:
  "\<not> IsStatus d_retry DispatcherStatusCancel \<and>
   w_task (wstore (doResultCollector 10 r_failed d_retry) 0) = None \<and>
   w_status (wstore (doResultCollector 10 r_failed d_retry) 0) = WorkerStatusWait \<and>
   workers (doResultCollector 10 r_failed d_retry) = \<lparr>m_items = [0], m_queue = [0]\<rparr> \<and>
   worker_status_changes 0 (events (doResultCollector 10 r_failed d_retry)) =
     [(WorkerStatusWait, WorkerStatusProcess)]"
  using doResultCollector_worker [where d = d_retry and r = r_failed and now = 10]
  by (simp add: d_retry_def r_failed_def eval_defs)

section \<open>A panicking task function (C8)\<close>




section \<open>Failure causes and the task status (C3)\<close>

text \<open>
  C3, as stated: the elapse of the per-task timeout yields the status FailByTimeout. The
  envelope of an elapsed timeout carries \<^verbatim>\<open>context.DeadlineExceeded\<close> and is not flagged
  cancel, so the collector sets Fail as for any error; and no value of the generated
  status table is named FailByTimeout.
\<close>

theorem timeout_status_counterexample:
  "map_option (task_view 0)
     (steps WorkerStatusCancel_Int64
        (run_begun task_timeout @ [Act_deadline 0, Act_select 0 case_ctx_Done, Act_send 0 9])
        NewSimpleDispatcher) = Some (TaskStatusFail, 1, False, False) \<and>
   TaskStatus_String TaskStatusFail = ''Fail'' \<and>
   ''FailByTimeout'' \<notin> set (map TaskStatus_String TaskStatusValues)"
  by (simp add: eval_defs TaskStatus_String_def TaskStatusValues_def
      TaskStatusIndex_def TaskStatusName_def)

text \<open>
  C3, amended. Take an execution at its \<^verbatim>\<open>select\<close>, the collector receiving the
  envelope it sends. While the dispatcher is not in Cancel and the task's status is not
  Cancel: the envelope of a task function that returned an error and the envelope of a
  task function that panicked, received from \<^verbatim>\<open>done\<close>, and the envelope of an elapsed
  timeout (the \<^verbatim>\<open>select\<close> takes \<^verbatim>\<open>ctx.Done()\<close>, the error of the context is
  \<^verbatim>\<open>context.DeadlineExceeded\<close>) each set the status Fail, followed by RepeatWait when
  another attempt is allowed. When the \<^verbatim>\<open>select\<close> takes \<^verbatim>\<open>ctx.Done()\<close> of a cancelled
  context (its error is \<^verbatim>\<open>context.Canceled\<close>), the envelope is flagged cancel and the
  collector changes no task status: the task keeps the status it has, whatever that is
  and whatever the dispatcher's status. And while the dispatcher is in Cancel or the
  task's status is Cancel, no envelope of the execution changes the task's status.
\<close>

theorem failure_causes_status:
  fixes now :: instant
  assumes "n < length (executions d)" and "x_begun (executions d ! n)"
    and "\<not> x_sent (executions d ! n)" and "x_envelope (executions d ! n) = None"
    and "collector d = Collector_select"
  defines "x \<equiv> executions d ! n"
  defines "outcome \<equiv> \<lambda>b. doRunTask_send now n (doRunTask_select n b d)"
  defines "again \<equiv> Repeats (t_task (tstore d (x_task x))) <s 0 \<or>
         t_attempts (tstore d (x_task x)) <s Repeats (t_task (tstore d (x_task x)))"
  defines "failed \<equiv> \<lambda>res.
     status_changes_during (x_task x) d res =
       Some ((TaskStatusFail, t_status (tstore d (x_task x))) #
             (if again then [(TaskStatusRepeatWait, TaskStatusFail)] else [])) \<and>
     status_after (x_task x) res = Some (if again then TaskStatusRepeatWait else TaskStatusFail)"
  defines "unchanged \<equiv> \<lambda>res.
     status_changes_during (x_task x) d res = Some [] \<and>
     status_after (x_task x) res = Some (t_status (tstore d (x_task x)))"
  shows
    "(\<not> IsStatus d DispatcherStatusCancel \<and> t_status (tstore d (x_task x)) \<noteq> TaskStatusCancel \<longrightarrow>
        (\<forall>res e. x_done x = Some (RunTask_goroutine (x_worker x) (x_task x) (Returned res (Some e))) \<longrightarrow>
           failed (outcome case_done)) \<and>
        (\<forall>v. x_done x = Some (RunTask_goroutine (x_worker x) (x_task x) (Panicked v)) \<longrightarrow>
           failed (outcome case_done)) \<and>
        (x_ctx x = Some DeadlineExceeded \<longrightarrow> failed (outcome case_ctx_Done))) \<and>
     (x_ctx x = Some Canceled \<longrightarrow> unchanged (outcome case_ctx_Done)) \<and>
     (IsStatus d DispatcherStatusCancel \<or> t_status (tstore d (x_task x)) = TaskStatusCancel \<longrightarrow>
        (\<forall>b r. select_case b x = Some r \<and> taskItem r = x_task x \<longrightarrow> unchanged (outcome b))) \<and>
     (\<forall>e. x_ctx x = Some e \<longrightarrow>
        map_option cancel (select_case case_ctx_Done x) = Some (e = Canceled))"
proof -
  have sent: "outcome b = Some (doResultCollector now r (results_send n r (doRunTask_select n b d)))"
    if "select_case b x = Some r" for b r
    unfolding outcome_def
    using that by (intro doRunTask_send_select [OF assms(1-4) _ assms(5)]) (simp add: x_def)
  have step: "failed (outcome b)"
    if sel: "select_case b x = Some r" and r: "\<not> cancel r" "err r \<noteq> None" "taskItem r = x_task x"
      and ok: "\<not> IsStatus d DispatcherStatusCancel" "t_status (tstore d (x_task x)) \<noteq> TaskStatusCancel"
    for b r
  proof -
    let ?d = "results_send n r (doRunTask_select n b d)"
    have nc: "\<not> IsStatus ?d DispatcherStatusCancel"
      using ok(1) by (simp add: IsStatus_def)
    have st: "t_status (tstore ?d (taskItem r)) \<noteq> TaskStatusCancel"
      using ok(2) r(3) by simp
    show ?thesis
      using collected_task_status [OF r(1) st, where now = now] r
        doResultCollector_collected(1,5) [OF nc, of now r]
      by (simp add: status_changes_during_def status_after_def sent [OF sel]
          task_status_changes_append failed_def again_def)
  qed
  have cancelled: "unchanged (outcome b)"
    if sel: "select_case b x = Some r"
      and r: "cancel r \<or> (taskItem r = x_task x \<and>
        (IsStatus d DispatcherStatusCancel \<or> t_status (tstore d (x_task x)) = TaskStatusCancel))"
    for b r
  proof (cases "IsStatus d DispatcherStatusCancel")
    case True
    let ?d = "results_send n r (doRunTask_select n b d)"
    have c: "IsStatus ?d DispatcherStatusCancel"
      using True by (simp add: IsStatus_def)
    show ?thesis
      using doResultCollector_cancelled [OF c, of now r]
      by (simp add: status_changes_during_def status_after_def sent [OF sel] unchanged_def)
  next
    case False
    let ?d = "results_send n r (doRunTask_select n b d)"
    have nc: "\<not> IsStatus ?d DispatcherStatusCancel"
      using False by (simp add: IsStatus_def)
    from r False
    consider "cancel r" | "taskItem r = x_task x" "t_status (tstore ?d (x_task x)) = TaskStatusCancel"
      by auto
    then show ?thesis
    proof cases
      case 1
      show ?thesis
        using collected_cancelled [OF 1, where now = now and d = ?d]
          doResultCollector_collected(1,5) [OF nc, of now r]
        by (simp add: status_changes_during_def status_after_def sent [OF sel]
            task_status_changes_append unchanged_def)
    next
      case 2
      show ?thesis
        using collected_task_cancelled [OF 2, where now = now] 2(1)
          doResultCollector_collected(1,5) [OF nc, of now r]
        by (simp add: status_changes_during_def status_after_def sent [OF sel]
            task_status_changes_append unchanged_def)
    qed
  qed
  show ?thesis
    by (intro conjI impI allI; (elim conjE)?) (auto intro!: step cancelled)
qed

theorem failure_causes_status_witness:
  "0 < length (executions (deadline 0 d_retry)) \<and> x_begun (executions (deadline 0 d_retry) ! 0) \<and>
   \<not> x_sent (executions (deadline 0 d_retry) ! 0) \<and>
   x_envelope (executions (deadline 0 d_retry) ! 0) = None \<and>
   collector (deadline 0 d_retry) = Collector_select \<and>
   \<not> IsStatus (deadline 0 d_retry) DispatcherStatusCancel \<and>
   t_status (tstore (deadline 0 d_retry) 0) \<noteq> TaskStatusCancel \<and>
   x_ctx (executions (deadline 0 d_retry) ! 0) = Some DeadlineExceeded \<and>
   status_changes_during 0 (deadline 0 d_retry)
     (doRunTask_send 10 0 (doRunTask_select 0 case_ctx_Done (deadline 0 d_retry))) =
     Some [(TaskStatusFail, TaskStatusProcess), (TaskStatusRepeatWait, TaskStatusFail)] \<and>
   status_after 0 (doRunTask_send 10 0 (doRunTask_select 0 case_ctx_Done (deadline 0 d_retry))) =
     Some TaskStatusRepeatWait \<and>
   x_ctx (executions (fst (Cancel d_retry)) ! 0) = Some Canceled \<and>
   status_changes_during 0 (fst (Cancel d_retry))
     (doRunTask_send 10 0 (doRunTask_select 0 case_ctx_Done (fst (Cancel d_retry)))) = Some [] \<and>
   status_after 0 (doRunTask_send 10 0 (doRunTask_select 0 case_ctx_Done (fst (Cancel d_retry)))) =
     Some TaskStatusProcess \<and>
   IsStatus (Run_shutdown WorkerStatusCancel_Int64 (fst (Cancel d_retry))) DispatcherStatusCancel \<and>
   select_case case_ctx_Done (executions (Run_shutdown WorkerStatusCancel_Int64 (fst (Cancel d_retry))) ! 0) =
     Some \<lparr>workerItem = 0, taskItem = 0, result = None, err = Some Canceled, cancel = True\<rparr> \<and>
   status_after 0
     (doRunTask_send 10 0
        (doRunTask_select 0 case_ctx_Done (Run_shutdown WorkerStatusCancel_Int64 (fst (Cancel d_retry))))) =
     Some WorkerStatusCancel_Int64"
  using failure_causes_status [where n = 0 and d = "deadline 0 d_retry" and now = 10]
    failure_causes_status [where n = 0 and d = "fst (Cancel d_retry)" and now = 10]
    failure_causes_status [where n = 0 and now = 10
      and d = "Run_shutdown WorkerStatusCancel_Int64 (fst (Cancel d_retry))"]
  by (simp add: d_retry_def eval_defs)

section \<open>The dispatch step (C6)\<close>

text \<open>
  C6, as stated: every run of the dispatch step pulls a worker and a task and launches
  the pair when both pulls succeed. \<^verbatim>\<open>doExecuteTasks\<close> returns at once when the
  dispatcher is not in Process: a tick that arrives while the dispatcher is in Cancel
  pulls nothing and launches nothing, with an idle worker and a pending task at hand.
\<close>

theorem dispatch_guard_counterexample:
  "map_option status
     (steps WorkerStatusCancel_Int64
        [Act_Run, Act_Run_notify, Act_Cancel, Act_Run_shutdown, Act_AddTask task_once, Act_AddWorker worker_one 0,
         Act_tick 1] NewSimpleDispatcher) = Some DispatcherStatusCancel \<and>
   map_option dispatching
     (steps WorkerStatusCancel_Int64
        [Act_Run, Act_Run_notify, Act_Cancel, Act_Run_shutdown, Act_AddTask task_once, Act_AddWorker worker_one 0]
        NewSimpleDispatcher) = Some True \<and>
   map_option (pulls 1)
     (steps WorkerStatusCancel_Int64
        [Act_Run, Act_Run_notify, Act_Cancel, Act_Run_shutdown, Act_AddTask task_once, Act_AddWorker worker_one 0,
         Act_tick 1] NewSimpleDispatcher) = Some (Some 0, Some 0) \<and>
   map_option launched
     (steps WorkerStatusCancel_Int64
        [Act_Run, Act_Run_notify, Act_Cancel, Act_Run_shutdown, Act_AddTask task_once, Act_AddWorker worker_one 0,
         Act_tick 1] NewSimpleDispatcher) = Some []"
  by (simp add: eval_defs pulls_def launched_def)

text \<open>
  C6, amended. While the dispatcher is in Process, a run of the dispatch step is the
  loop: it pulls one idle worker and one eligible task; when both pulls succeed it
  launches an execution for the pair and goes on; when at most one succeeds it pushes
  what it pulled back into its manager and returns. The loop always returns, and when
  it has returned, an idle worker and an eligible task are not both left. While the
  dispatcher is not in Process, a run of the dispatch step returns at once: it pulls
  nothing, launches nothing and leaves the dispatcher as it is.
\<close>

theorem doExecuteTasks_pairs:
  "(IsStatus d DispatcherStatusProcess \<longrightarrow> doExecuteTasks now d = doExecuteTasks_loop now d) \<and>
   (\<not> IsStatus d DispatcherStatusProcess \<longrightarrow> doExecuteTasks now d = d) \<and>
   (\<forall>d0 w t. pulls now d0 = (Some w, Some t) \<longrightarrow>
      doExecuteTasks_loop now d0 =
        doExecuteTasks_loop now
          (go_doRunTask w t (AsyncTrigger (EventTaskExecuteStart t w) (pulled now d0)))) \<and>
   (\<forall>d0 w. pulls now d0 = (Some w, None) \<longrightarrow>
      doExecuteTasks_loop now d0 = fst (pushWorker w (pulled now d0))) \<and>
   (\<forall>d0 t. pulls now d0 = (None, Some t) \<longrightarrow>
      doExecuteTasks_loop now d0 = fst (pushTask t (pulled now d0))) \<and>
   (\<forall>d0. pulls now d0 = (None, None) \<longrightarrow> doExecuteTasks_loop now d0 = pulled now d0) \<and>
   (IsStatus d DispatcherStatusProcess \<longrightarrow>
      fst (pulls now (doExecuteTasks now d)) = None \<or> snd (pulls now (doExecuteTasks now d)) = None)"
proof (intro conjI allI impI)
  assume p: "IsStatus d DispatcherStatusProcess"
  show e: "doExecuteTasks now d = doExecuteTasks_loop now d"
    using p by (simp add: doExecuteTasks_def)
  show "fst (pulls now (doExecuteTasks now d)) = None \<or> snd (pulls now (doExecuteTasks now d)) = None"
    unfolding e by (rule doExecuteTasks_loop_exit)
next
  assume "\<not> IsStatus d DispatcherStatusProcess"
  then show "doExecuteTasks now d = d"
    by (simp add: doExecuteTasks_def)
qed (erule doExecuteTasks_loop_launch doExecuteTasks_loop_return)+

theorem doExecuteTasks_pairs_witness:
  "IsStatus d_ready DispatcherStatusProcess \<and>
   pulls 5 d_ready = (Some 0, Some 0) \<and>
   launched (doExecuteTasks 5 d_ready) = [(0, 0)] \<and>
   m_queue (workers (doExecuteTasks 5 d_ready)) = [] \<and>
   m_queue (tasks (doExecuteTasks 5 d_ready)) = [1] \<and>
   pulls 5 (doExecuteTasks 5 d_ready) = (None, Some 1) \<and>
   \<not> IsStatus (d_ready\<lparr>status := DispatcherStatusCancel\<rparr>) DispatcherStatusProcess \<and>
   pulls 5 (d_ready\<lparr>status := DispatcherStatusCancel\<rparr>) = (Some 0, Some 0) \<and>
   doExecuteTasks 5 (d_ready\<lparr>status := DispatcherStatusCancel\<rparr>) =
     d_ready\<lparr>status := DispatcherStatusCancel\<rparr>"
proof -
  have p: "IsStatus d_ready DispatcherStatusProcess"
    and q: "\<not> IsStatus (d_ready\<lparr>status := DispatcherStatusCancel\<rparr>) DispatcherStatusProcess"
    by (simp_all add: d_ready_def IsStatus_def)
  from doExecuteTasks_pairs [of d_ready 5] p
  have e: "doExecuteTasks 5 d_ready = doExecuteTasks_loop 5 d_ready"
    by (elim conjE) (erule mp)
  from doExecuteTasks_pairs [of "d_ready\<lparr>status := DispatcherStatusCancel\<rparr>" 5] q
  have c: "doExecuteTasks 5 (d_ready\<lparr>status := DispatcherStatusCancel\<rparr>) =
     d_ready\<lparr>status := DispatcherStatusCancel\<rparr>"
    by (elim conjE) (erule (1) mp)
  have "pulls 5 d_ready = (Some 0, Some 0)"
    and "launched (doExecuteTasks_loop 5 d_ready) = [(0, 0)]"
    and "m_queue (workers (doExecuteTasks_loop 5 d_ready)) = []"
    and "m_queue (tasks (doExecuteTasks_loop 5 d_ready)) = [1]"
    and "pulls 5 (doExecuteTasks_loop 5 d_ready) = (None, Some 1)"
    and "pulls 5 (d_ready\<lparr>status := DispatcherStatusCancel\<rparr>) = (Some 0, Some 0)"
    by (simp_all add: d_ready_def eval_defs pulls_def launched_def)
  with p q e c show ?thesis by simp
qed

section \<open>Shutdown (C4)\<close>

text \<open>
  C4. What \<^verbatim>\<open>Run\<close> does once the context is done: the dispatcher's status becomes
  Cancel; every worker the manager holds gets the status Cancel; every task the manager
  holds gets the status \<^verbatim>\<open>Run\<close> passes to \<^verbatim>\<open>setStatusTask\<close>, which is the worker
  constant \<^verbatim>\<open>workers.WorkerStatusCancel\<close> and not \<^verbatim>\<open>workers.TaskStatusCancel\<close>; and
  after the wait group the status is Wait again and \<^verbatim>\<open>Run\<close> returns nil. With Cancel
  the fourth worker status, a task so marked reads as Success.
\<close>

theorem Run_shutdown_statuses:
  "status (Run_shutdown wsc d) = DispatcherStatusCancel \<and>
   (\<forall>w \<in> set (GetAll (workers d)). w_status (wstore (Run_shutdown wsc d) w) = WorkerStatusCancel) \<and>
   (\<forall>t \<in> set (GetAll (tasks d)). t_status (tstore (Run_shutdown wsc d) t) = wsc) \<and>
   (\<forall>t. t \<notin> set (GetAll (tasks d)) \<longrightarrow>
      t_status (tstore (Run_shutdown wsc d) t) = t_status (tstore d t)) \<and>
   status (fst (Run_return (Run_shutdown wsc d))) = DispatcherStatusWait \<and>
   snd (Run_return (Run_shutdown wsc d)) = None"
  by (simp add: Run_shutdown_def Run_return_def Let_def fold_setStatusTask fold_setStatusWorker)

theorem Run_shutdown_statuses_witness:
  "0 \<in> set (GetAll (tasks d_ready)) \<and>
   t_status (tstore (Run_shutdown WorkerStatusCancel_Int64 d_ready) 0) = TaskStatusSuccess \<and>
   TaskStatus_String TaskStatusSuccess = ''Success'' \<and>
   TaskStatusSuccess \<noteq> TaskStatusCancel \<and>
   map_option (task_view 0)
     (steps WorkerStatusCancel_Int64
        [Act_AddTask task_once, Act_AddWorker worker_one 0, Act_Run, Act_Run_notify, Act_Cancel,
         Act_Run_shutdown]
        NewSimpleDispatcher) = Some (TaskStatusSuccess, 0, True, True) \<and>
   map_option (worker_view 0)
     (steps WorkerStatusCancel_Int64
        [Act_AddTask task_once, Act_AddWorker worker_one 0, Act_Run, Act_Run_notify, Act_Cancel,
         Act_Run_shutdown]
        NewSimpleDispatcher) = Some (WorkerStatusCancel, True, True)"
proof -
  have m: "0 \<in> set (GetAll (tasks d_ready))"
    by (simp add: d_ready_def GetAll_def)
  from Run_shutdown_statuses [of WorkerStatusCancel_Int64 d_ready] m
  have "t_status (tstore (Run_shutdown WorkerStatusCancel_Int64 d_ready) 0) = WorkerStatusCancel_Int64"
    by blast
  then show ?thesis
    using m
    by (simp add: eval_defs TaskStatus_String_def TaskStatusIndex_def TaskStatusName_def)
qed

section \<open>The notify channel (C9)\<close>

text \<open>
  C9. The notify channel has capacity 1, and \<^verbatim>\<open>notifyAllowExecuteTasks\<close> sends only
  after it has seen the dispatcher in Process and the channel empty. A caller that sends
  before anything else happens finds room. But the check and the send are two steps:
  two callers that both pass the check while the channel is empty are both at the send;
  the send of the first fills the channel, and the send of the second blocks, until
  \<^verbatim>\<open>doDispatch\<close> receives the signal, and for good when it has returned. So the send can
  block the caller.
\<close>

theorem notifyAllowExecuteTasks_blocks:
  assumes "notifyAllowExecuteTasks_check d"
  shows "allowExecuteTasks_cap = 1 \<and>
     (\<exists>d1. notifyAllowExecuteTasks_send d = Some d1 \<and> allowExecuteTasks d1 = 1 \<and>
        \<not> notifyAllowExecuteTasks_check d1 \<and> notifyAllowExecuteTasks d1 = d1 \<and>
        notifyAllowExecuteTasks_send d1 = None) \<and>
     notifyAllowExecuteTasks_check (notifyAllowExecuteTasks d) \<and>
     senders (notifyAllowExecuteTasks (notifyAllowExecuteTasks d)) = senders d + 2 \<and>
     (\<exists>d1. senders_send (notifyAllowExecuteTasks (notifyAllowExecuteTasks d)) = Some d1 \<and>
        allowExecuteTasks d1 = 1 \<and> senders d1 = senders d + 1 \<and> senders_send d1 = None)"
  using assms
  by (simp add: notifyAllowExecuteTasks_def notifyAllowExecuteTasks_check_def
      notifyAllowExecuteTasks_send_def senders_send_def chan_send_def allowExecuteTasks_cap_def
      IsStatus_def)

theorem notifyAllowExecuteTasks_blocks_witness:
  "notifyAllowExecuteTasks_check d_ready \<and>
   senders (notifyAllowExecuteTasks (notifyAllowExecuteTasks d_ready)) = 2 \<and>
   (\<exists>d1. senders_send (notifyAllowExecuteTasks (notifyAllowExecuteTasks d_ready)) = Some d1 \<and>
      senders_send d1 = None) \<and>
   map_option (\<lambda>d. (run_notify d, senders d, allowExecuteTasks d))
     (steps WorkerStatusCancel_Int64 [Act_Run, Act_AddTask task_once] NewSimpleDispatcher) =
     Some (True, 1, 0) \<and>
   map_option (\<lambda>d. (run_notify d, senders d, allowExecuteTasks d))
     (steps WorkerStatusCancel_Int64 [Act_Run, Act_AddTask task_once, Act_notify_send]
        NewSimpleDispatcher) = Some (True, 0, 1) \<and>
   steps WorkerStatusCancel_Int64 [Act_Run, Act_AddTask task_once, Act_notify_send, Act_Run_notify]
     NewSimpleDispatcher = None \<and>
   steps WorkerStatusCancel_Int64 [Act_Run, Act_AddTask task_once, Act_Run_notify, Act_notify_send]
     NewSimpleDispatcher = None \<and>
   steps WorkerStatusCancel_Int64
     [Act_Run, Act_AddTask task_once, Act_Cancel, Act_dispatch_return, Act_notify_send,
      Act_signal 1, Act_tick 2, Act_Run_notify]
     NewSimpleDispatcher = None"
  using notifyAllowExecuteTasks_blocks [of d_ready]
  by (simp add: d_ready_def eval_defs)

section \<open>Cancel (C10)\<close>

text \<open>
  C10, as stated: every call of \<^verbatim>\<open>Cancel()\<close> returns \<^verbatim>\<open>context.Canceled\<close>. It fails for a
  dispatcher made with a parent context whose deadline has passed: the dispatcher's
  context is done already, and its \<^verbatim>\<open>Err()\<close> stays \<^verbatim>\<open>context.DeadlineExceeded\<close>.
\<close>

theorem Cancel_deadline_counterexample:
  "snd (Cancel (NewSimpleDispatcherWithContext (Some DeadlineExceeded))) \<noteq> Some Canceled"
  by (simp add: Cancel_def ctx_Done_def NewSimpleDispatcherWithContext_def)

text \<open>
  C10, amended. \<^verbatim>\<open>Cancel()\<close> always returns a non-nil error, the \<^verbatim>\<open>Err()\<close> of the
  dispatcher's context after the call: \<^verbatim>\<open>context.Canceled\<close> when the context was not done
  before, and the error it was done with otherwise.
\<close>

theorem Cancel_returns_ctx_Err:
  "snd (Cancel d) \<noteq> None \<and> snd (Cancel d) = ctx (fst (Cancel d)) \<and>
   snd (Cancel d) = (case ctx d of None \<Rightarrow> Some Canceled | Some e \<Rightarrow> Some e)"
  by (simp add: Cancel_def ctx_Done_def Let_def split: option.splits)

section \<open>The retry bound (C2)\<close>




section \<open>The stamps of a dispatch (C7)\<close>

text \<open>
  C7, as stated: for every task, attempts is 0 if and only if \<^verbatim>\<open>first_started_at\<close> is
  unset. The prologue of \<^verbatim>\<open>doRunTask\<close> increments the attempts and sets the status
  Process before it stamps: where the status change of a first dispatch is triggered,
  attempts is 1 and \<^verbatim>\<open>first_started_at\<close> is still unset.
\<close>

theorem first_started_at_counterexample:
  "map_option (stamp_view 0)
     (steps WorkerStatusCancel_Int64
        [Act_AddTask task_once, Act_AddWorker worker_one 0, Act_Run, Act_Run_notify, Act_signal 1]
        NewSimpleDispatcher) = Some (0, None) \<and>
   map_option (stamp_view 0 \<circ> marked 0)
     (steps WorkerStatusCancel_Int64
        [Act_AddTask task_once, Act_AddWorker worker_one 0, Act_Run, Act_Run_notify, Act_signal 1]
        NewSimpleDispatcher) = Some (1, None) \<and>
   map_option (last_event \<circ> marked 0)
     (steps WorkerStatusCancel_Int64
        [Act_AddTask task_once, Act_AddWorker worker_one 0, Act_Run, Act_Run_notify, Act_signal 1]
        NewSimpleDispatcher) = Some (EventTaskStatusChanged 0 TaskStatusProcess TaskStatusWait)"
  by (simp add: eval_defs)

text \<open>
  C7, amended. The prologue of \<^verbatim>\<open>doRunTask\<close>, which every execution runs once when it
  begins, marks the task Process, increments its attempts by exactly one (in int64),
  stamps \<^verbatim>\<open>last_started_at\<close>, stamps \<^verbatim>\<open>first_started_at\<close> exactly when the incremented
  attempts is 1, and leaves the other task items as they are. In every state a run of
  fewer than 2^64 steps of a new dispatcher reaches, a prologue being one step, and
  for every task item: attempts is 0 if and only if \<^verbatim>\<open>first_started_at\<close> is unset.
\<close>

theorem dispatch_stamps:
  fixes now :: instant
  shows
  "t_status (tstore (doRunTask_prologue now n wi ti d) ti) = TaskStatusProcess \<and>
   t_attempts (tstore (doRunTask_prologue now n wi ti d) ti) = t_attempts (tstore d ti) + 1 \<and>
   t_lastStartedAt (tstore (doRunTask_prologue now n wi ti d) ti) = Some now \<and>
   t_firstStartedAt (tstore (doRunTask_prologue now n wi ti d) ti) =
     (if t_attempts (tstore d ti) + 1 = 1 then Some now else t_firstStartedAt (tstore d ti)) \<and>
   (\<forall>a. a \<noteq> ti \<longrightarrow> tstore (doRunTask_prologue now n wi ti d) a = tstore d a) \<and>
   (n < length (executions d) \<and> \<not> x_begun (executions d ! n) \<longrightarrow>
      tstore (doRunTask_begin now n d) =
        tstore (doRunTask_prologue now n (x_worker (executions d ! n)) (x_task (executions d ! n)) d) \<and>
      x_begun (executions (doRunTask_begin now n d) ! n)) \<and>
   (n < length (executions d) \<and> x_begun (executions d ! n) \<longrightarrow> doRunTask_begin now n d = d) \<and>
   (steps wsc as (NewSimpleDispatcherWithContext parent) = Some d' \<and> length as < 2 ^ 64 \<longrightarrow>
      (\<forall>a. (t_attempts (tstore d' a) = 0) = (t_firstStartedAt (tstore d' a) = None)))"
proof (intro conjI impI allI)
  fix a
  assume "steps wsc as (NewSimpleDispatcherWithContext parent) = Some d' \<and> length as < 2 ^ 64"
  then have s: "steps wsc as (NewSimpleDispatcherWithContext parent) = Some d'"
    and l: "0 + length as < 2 ^ 64"
    by simp_all
  have "Stamp (0 + length as) d'"
    by (rule Stamp_steps [OF Stamp_New l s])
  then show "(t_attempts (tstore d' a) = 0) = (t_firstStartedAt (tstore d' a) = None)"
    by (simp add: Stamp_def stamped_def tk_def task_core_def)
qed (auto simp: doRunTask_prologue_def doRunTask_mark_def doRunTask_stamp_def doRunTask_begin_def Let_def)

theorem dispatch_stamps_witness:
  "stamp_view 0 d_ready = (0, None) \<and>
   stamp_view 0 (doRunTask_prologue 2 0 0 0 d_ready) = (1, Some 2) \<and>
   stamp_view 0 (doRunTask_prologue 7 1 0 0 (doRunTask_prologue 2 0 0 0 d_ready)) = (2, Some 2) \<and>
   t_lastStartedAt (tstore (doRunTask_prologue 7 1 0 0 (doRunTask_prologue 2 0 0 0 d_ready)) 0) = Some 7 \<and>
   steps WorkerStatusCancel_Int64 (run_begun task_once) (NewSimpleDispatcherWithContext None) \<noteq> None \<and>
   length (run_begun task_once) < 2 ^ 64 \<and>
   map_option (stamp_view 0)
     (steps WorkerStatusCancel_Int64 (run_begun task_once) (NewSimpleDispatcherWithContext None)) =
     Some (1, Some 2) \<and>
   map_option (stamp_view 1)
     (steps WorkerStatusCancel_Int64 (run_begun task_once) (NewSimpleDispatcherWithContext None)) =
     Some (0, None)"
proof -
  let ?s = "steps WorkerStatusCancel_Int64 (run_begun task_once) (NewSimpleDispatcherWithContext None)"
  have e: "?s = Some (the ?s)" and l: "length (run_begun task_once) < 2 ^ 64"
    by (simp_all add: eval_defs)
  note t = dispatch_stamps [where wsc = WorkerStatusCancel_Int64 and as = "run_begun task_once"
      and parent = None and d' = "the ?s" and d = d_ready and n = 0 and wi = 0 and ti = 0 and now = 2]
  from t e l have 1: "\<forall>a. (t_attempts (tstore (the ?s) a) = 0) = (t_firstStartedAt (tstore (the ?s) a) = None)"
    by blast
  from t have 2: "t_attempts (tstore (doRunTask_prologue 2 0 0 0 d_ready) 0) = t_attempts (tstore d_ready 0) + 1"
    by blast
  from 1 2 show ?thesis
    by (simp add: d_ready_def eval_defs)
qed

end
